theory Spec2Isabelle
  imports Main
begin

section \<open>Text and the two comma patterns\<close>

text \<open>
  Source text is a \<^typ>\<open>string\<close>; one \<^typ>\<open>char\<close> stands for one code unit, so the
  model covers texts whose code units are below 256. The class \<open>\s\<close> of the two regular
  expressions is restricted accordingly to TAB, LF, VT, FF, CR, SPACE and NBSP.
\<close>

definition isWhiteSpace :: "char \<Rightarrow> bool" where
  "isWhiteSpace c =
     (c = CHR 0x09 \<or> c = CHR 0x0A \<or> c = CHR 0x0B \<or> c = CHR 0x0C \<or> c = CHR 0x0D
      \<or> c = CHR 0x20 \<or> c = CHR 0xA0)"

text \<open>\<open>s.substring(i)\<close> and \<open>s.substring(0, i)\<close>; both clamp \<open>i\<close> to the length.\<close>

definition substringFrom :: "string \<Rightarrow> nat \<Rightarrow> string" where
  "substringFrom s i = drop i s"

definition substringTo :: "string \<Rightarrow> nat \<Rightarrow> string" where
  "substringTo s i = take i s"

definition endsWith :: "string \<Rightarrow> string \<Rightarrow> bool" where
  "endsWith s suf = (length suf \<le> length s \<and> drop (length s - length suf) s = suf)"

text \<open>
  \<open>t.match(/^\s*,/)\<close>: the matched text (element 0 of the match), or \<open>None\<close> for
  \<open>null\<close>. A comma is no white space, so the greedy \<open>\s*\<close> never gives anything back.
\<close>

definition commaMatchAfter :: "string \<Rightarrow> string option" where
  "commaMatchAfter t =
     (case dropWhile isWhiteSpace t of
        [] \<Rightarrow> None
      | c # _ \<Rightarrow> if c = CHR '','' then Some (takeWhile isWhiteSpace t @ '','') else None)"

text \<open>
  \<open>t.match(/,\s*$/)\<close> (no multiline flag, so \<open>$\<close> is the end of \<open>t\<close>): only the last
  comma of \<open>t\<close> can be followed by white space alone, so the match is that comma with the
  white space up to the end.
\<close>

definition commaMatchBefore :: "string \<Rightarrow> string option" where
  "commaMatchBefore t =
     (case dropWhile isWhiteSpace (rev t) of
        [] \<Rightarrow> None
      | c # _ \<Rightarrow>
          if c = CHR '','' then Some ('','' @ rev (takeWhile isWhiteSpace (rev t))) else None)"

section \<open>The syntax tree handed over by the TypeScript parser\<close>

text \<open>
  The parser is a library; the model takes its result as given. Only the node kinds the
  schematic inspects are kept apart, every other kind is an \<open>Other...\<close> constructor.
  Positions are offsets into the text of the file: \<open>getFullStart\<close> includes the leading
  trivia of the node, \<open>getStart\<close> does not, \<open>getEnd\<close> is the end of its last token.
\<close>

record textRange =
  getFullStart :: nat
  getStart :: nat
  getEnd :: nat

datatype propertyName = Identifier string | StringLiteralName string | OtherPropertyName

datatype expression =
    StringLiteral string
  | NoSubstitutionTemplateLiteral string
  | ArrayLiteralExpression "expression list"
  | OtherExpression

datatype objectLiteralElement =
    PropertyAssignment propertyName expression textRange
  | OtherElement textRange

datatype callee = CalleeIdentifier string | OtherCallee

datatype argument = ObjectLiteralExpression "objectLiteralElement list" | OtherArgument

datatype decorator = CallExpression callee "argument list" | OtherDecorator

datatype node = ClassDeclaration "decorator list" "node list" | OtherNode "node list"

section \<open>Paths, the virtual tree and the update recorder\<close>

text \<open>
  A path of the tree is normalized and absolute; it is kept as its list of segments, so
  that \<open>dirname\<close> drops the last segment, \<open>basename\<close> is the last segment, \<open>join\<close> of a
  directory and a file name appends the name, and \<open>normalize\<close> (here \<open>normalizePath\<close>) has nothing left to do.
\<close>

type_synonym path = "string list"

definition pathString :: "path \<Rightarrow> string" where
  "pathString p = (if p = [] then ''/'' else concat (map (\<lambda>s. ''/'' @ s) p))"

definition dirname :: "path \<Rightarrow> path" where
  "dirname p = butlast p"

definition basename :: "path \<Rightarrow> string \<Rightarrow> string" where
  "basename p ext =
     (if p = [] then []
      else if endsWith (last p) ext \<and> last p \<noteq> ext
           then take (length (last p) - length ext) (last p)
           else last p)"

definition join :: "path \<Rightarrow> string \<Rightarrow> path" where
  "join d f = d @ [f]"

definition normalizePath :: "path \<Rightarrow> path" where
  "normalizePath p = p"

datatype fault =
    FileAlreadyExists path
  | FileDoesNotExist path
  | ContentHasMutated path
  | IndexOutOfBound nat
  | CharacterOutOfBounds
  | EndBeforeStart
  | EnumerationFault

type_synonym tree = "path \<Rightarrow> string option"

definition read :: "tree \<Rightarrow> path \<Rightarrow> string option" where
  "read t p = t p"

definition exists :: "tree \<Rightarrow> path \<Rightarrow> bool" where
  "exists t p = (t p \<noteq> None)"

definition create :: "tree \<Rightarrow> path \<Rightarrow> string \<Rightarrow> fault + tree" where
  "create t p c = (if exists t p then Inl (FileAlreadyExists p) else Inr (t(p \<mapsto> c)))"

text \<open>
  Modelled from the spec: the update recorder of the schematics library, which is not part
  of the repository. Edits are staged in the coordinates of the original text
  (\<open>removeRange\<close>, \<open>insertPosition\<close>, \<open>insertText\<close>) and land together at the commit.
  For every offset \<open>i\<close> of the original, \<open>inserted ! i\<close> is the text staged to the left of
  offset \<open>i\<close> and \<open>removed ! i\<close> tells whether the character at \<open>i\<close> is gone. A removal
  also drops what had been staged strictly inside its range and at its end; an insertion
  staged afterwards at an offset of the removed range stays, so that it comes out where
  the removed text was.

  What the library refuses is a throw of the model: an offset beyond the end of the text
  the recorder was begun on (\<open>IndexOutOfBound\<close>), a removal that reaches beyond that end
  (\<open>CharacterOutOfBounds\<close>) or that ends before it starts (\<open>EndBeforeStart\<close>), the
  creation of a file that exists, an update of a file that does not, and a commit onto a
  file whose content is no longer the one the recorder was begun on. \<open>remove\<close> is called
  with an offset and a length, the length being \<open>removalEnd - removalStart\<close>, an integer
  that may be negative.
\<close>

record recorder =
  recPath :: path
  original :: string
  inserted :: "string list"
  removed :: "bool list"

definition newRecorder :: "path \<Rightarrow> string \<Rightarrow> recorder" where
  "newRecorder p c =
     \<lparr>recPath = p, original = c, inserted = replicate (Suc (length c)) [],
      removed = replicate (length c) False\<rparr>"

definition beginUpdate :: "tree \<Rightarrow> path \<Rightarrow> fault + recorder" where
  "beginUpdate t p =
     (case t p of None \<Rightarrow> Inl (FileDoesNotExist p) | Some c \<Rightarrow> Inr (newRecorder p c))"

definition remove :: "nat \<Rightarrow> int \<Rightarrow> recorder \<Rightarrow> fault + recorder" where
  "remove index len r =
     (let n = length (original r) in
      if index > n then Inl (IndexOutOfBound index)
      else if len = 0 then Inr r
      else if int index + len > int n then Inl CharacterOutOfBounds
      else if len < 0 then Inl EndBeforeStart
      else Inr (r\<lparr>inserted :=
                     map (\<lambda>i. if index < i \<and> int i \<le> int index + len then [] else inserted r ! i)
                       [0..<Suc n],
                   removed :=
                     map (\<lambda>i. (index \<le> i \<and> int i < int index + len) \<or> removed r ! i)
                       [0..<n]\<rparr>))"

definition insertLeft :: "nat \<Rightarrow> string \<Rightarrow> recorder \<Rightarrow> fault + recorder" where
  "insertLeft index content r =
     (if index > length (original r) then Inl (IndexOutOfBound index)
      else Inr (r\<lparr>inserted := (inserted r)[index := inserted r ! index @ content]\<rparr>))"

definition applyEdits :: "recorder \<Rightarrow> string" where
  "applyEdits r =
     concat (map (\<lambda>i. inserted r ! i @
                       (if i < length (original r) \<and> \<not> removed r ! i then [original r ! i] else []))
               [0..<Suc (length (original r))])"

definition commitUpdate :: "tree \<Rightarrow> recorder \<Rightarrow> fault + tree" where
  "commitUpdate t r =
     (if t (recPath r) = Some (original r) then Inr (t(recPath r \<mapsto> applyEdits r))
      else Inl (ContentHasMutated (recPath r)))"

section \<open>Diagnostics and the state of a run\<close>

datatype level = Info | Debug | Warn | Error | Fatal

datatype concern = Template | Styles

datatype message =
    Searching
  | CouldNotRead path
  | SkipNotComponentFile
  | DecoratorNotFound
  | SkipHasTemplateUrl path
  | SkipNoInlineTemplate path
  | Processing path
  | HtmlExists path
  | Created path
  | PropertyNodeNotFound path
  | Updated path
  | InvalidRemovalRange concern path
  | ErrorProcessingFile path
  | FatalTraversal
  | FaultMessage fault
  | FaultStack fault
  | Completed

record state =
  tree :: tree
  logger :: "(level \<times> message) list"

definition log :: "level \<Rightarrow> message \<Rightarrow> state \<Rightarrow> state" where
  "log l m st = st\<lparr>logger := logger st @ [(l, m)]\<rparr>"

text \<open>
  What a piece of the rule leaves behind: it ran to its end, or it threw; a throw keeps
  what had been done to the tree and the log before it.
\<close>

datatype outcome = Done state | Thrown fault state

fun stateOf :: "outcome \<Rightarrow> state" where
  "stateOf (Done st) = st"
| "stateOf (Thrown f st) = st"

section \<open>index.ts: the helper functions\<close>

definition isComponentCall :: "decorator \<Rightarrow> objectLiteralElement list option" where
  "isComponentCall d =
     (case d of
        CallExpression (CalleeIdentifier name) (ObjectLiteralExpression props # _) \<Rightarrow>
          if name = ''Component'' then Some props else None
      | _ \<Rightarrow> None)"

fun firstComponentCall :: "decorator list \<Rightarrow> objectLiteralElement list option" where
  "firstComponentCall [] = None"
| "firstComponentCall (d # ds) =
     (case isComponentCall d of Some props \<Rightarrow> Some props | None \<Rightarrow> firstComponentCall ds)"

text \<open>
  \<open>visitNode\<close> threads the variable \<open>componentDecorator\<close> of the enclosing function.
  A class declaration with a matching decorator assigns it whatever it held; the children
  of a node are walked only while it is still \<open>null\<close>, and \<open>forEachChild\<close> calls the
  visitor on every child because the visitor returns nothing.
\<close>

fun visitNode :: "node \<Rightarrow> objectLiteralElement list option \<Rightarrow> objectLiteralElement list option"
  and visitChildren :: "node list \<Rightarrow> objectLiteralElement list option \<Rightarrow> objectLiteralElement list option"
where
  "visitNode (ClassDeclaration decorators children) componentDecorator =
     (case firstComponentCall decorators of
        Some props \<Rightarrow> Some props
      | None \<Rightarrow>
          if componentDecorator = None then visitChildren children componentDecorator
          else componentDecorator)"
| "visitNode (OtherNode children) componentDecorator =
     (if componentDecorator = None then visitChildren children componentDecorator
      else componentDecorator)"
| "visitChildren [] componentDecorator = componentDecorator"
| "visitChildren (c # cs) componentDecorator =
     visitChildren cs (visitNode c componentDecorator)"

definition findComponentDecorator :: "node \<Rightarrow> objectLiteralElement list option" where
  "findComponentDecorator sourceFile = visitNode sourceFile None"

definition isNamed :: "string \<Rightarrow> objectLiteralElement \<Rightarrow> bool" where
  "isNamed propertyName prop =
     (case prop of
        PropertyAssignment (Identifier text) _ _ \<Rightarrow> text = propertyName
      | _ \<Rightarrow> False)"

definition getDecoratorPropertyValue :: "objectLiteralElement list \<Rightarrow> string \<Rightarrow> string option" where
  "getDecoratorPropertyValue props propertyName =
     (case find (isNamed propertyName) props of
        Some (PropertyAssignment _ (StringLiteral text) _) \<Rightarrow> Some text
      | Some (PropertyAssignment _ (NoSubstitutionTemplateLiteral text) _) \<Rightarrow> Some text
      | _ \<Rightarrow> None)"

definition getDecoratorPropertyNode :: "objectLiteralElement list \<Rightarrow> string \<Rightarrow> textRange option" where
  "getDecoratorPropertyNode props propertyName =
     (case find (isNamed propertyName) props of
        Some (PropertyAssignment _ _ rng) \<Rightarrow> Some rng
      | _ \<Rightarrow> None)"

section \<open>index.ts: the rule\<close>

text \<open>
  Lines 169 to 203: the removal range and whether the inserted entry gets a comma.
  \<open>removalStart -= commaMatchBefore[0].length\<close> cannot go below zero, the match being
  a piece of the text in front of the node.
\<close>

definition removalRange :: "string \<Rightarrow> nat \<Rightarrow> textRange \<Rightarrow> nat \<times> nat \<times> bool" where
  "removalRange text propertiesLength templatePropertyNode =
     (let removalStart = getFullStart templatePropertyNode;
          removalEnd = getEnd templatePropertyNode in
      if propertiesLength > 1 then
        (case commaMatchAfter (substringFrom text (getEnd templatePropertyNode)) of
           Some m \<Rightarrow> (removalStart, removalEnd + length m, True)
         | None \<Rightarrow>
             (case commaMatchBefore (substringTo text (getFullStart templatePropertyNode)) of
                Some m \<Rightarrow> (removalStart - length m, removalEnd, False)
              | None \<Rightarrow> (removalStart, removalEnd, False)))
      else (removalStart, removalEnd, False))"

definition newTemplateUrlProperty :: "string \<Rightarrow> string" where
  "newTemplateUrlProperty relativeHtmlPath = ''templateUrl: '' @ [CHR 0x27] @ relativeHtmlPath @ [CHR 0x27]"

text \<open>Lines 142 to 150: the markup file is created unless its path exists.\<close>

definition createHtmlFile :: "path \<Rightarrow> string \<Rightarrow> state \<Rightarrow> outcome" where
  "createHtmlFile htmlFilePath templateContent st =
     (if exists (tree st) htmlFilePath then Done (log Warn (HtmlExists htmlFilePath) st)
      else (case create (tree st) htmlFilePath templateContent of
              Inl f \<Rightarrow> Thrown f st
            | Inr t \<Rightarrow> Done (log Debug (Created htmlFilePath) (st\<lparr>tree := t\<rparr>))))"

text \<open>Lines 162 to 217: the entry is removed and the reference entry inserted.\<close>

definition replaceTemplate ::
  "path \<Rightarrow> string \<Rightarrow> nat \<Rightarrow> textRange \<Rightarrow> string \<Rightarrow> state \<Rightarrow> outcome" where
  "replaceTemplate filePath text propertiesLength templatePropertyNode relativeHtmlPath st =
     (case beginUpdate (tree st) filePath of
        Inl f \<Rightarrow> Thrown f st
      | Inr recorder \<Rightarrow>
          (case removalRange text propertiesLength templatePropertyNode of
             (removalStart, removalEnd, needsCommaInserted) \<Rightarrow>
               (case remove removalStart (int removalEnd - int removalStart) recorder of
                  Inl f \<Rightarrow> Thrown f st
                | Inr r1 \<Rightarrow>
                    (case insertLeft (getStart templatePropertyNode)
                            (newTemplateUrlProperty relativeHtmlPath
                               @ (if needsCommaInserted then '','' else [])) r1 of
                       Inl f \<Rightarrow> Thrown f st
                     | Inr r2 \<Rightarrow>
                         (case commitUpdate (tree st) r2 of
                            Inl f \<Rightarrow> Thrown f st
                          | Inr t \<Rightarrow> Done (log Info (Updated filePath) (st\<lparr>tree := t\<rparr>)))))))"

text \<open>
  Lines 86 to 218: the visitor called on every file path. The parser is the parameter
  \<open>parse\<close>, called like \<open>ts.createSourceFile\<close> with the path and the text.
\<close>

definition visitFile :: "(path \<Rightarrow> string \<Rightarrow> node) \<Rightarrow> path \<Rightarrow> state \<Rightarrow> outcome" where
  "visitFile parse filePath st =
     (if \<not> endsWith (pathString filePath) ''.component.ts'' then Done st
      else
        (case read (tree st) filePath of
           None \<Rightarrow> Done (log Warn (CouldNotRead filePath) st)
         | Some content \<Rightarrow>
             (case findComponentDecorator (parse filePath content) of
                None \<Rightarrow> Done st
              | Some properties \<Rightarrow>
                  if list_ex (isNamed ''templateUrl'') properties
                  then Done (log Debug (SkipHasTemplateUrl filePath) st)
                  else
                    (case getDecoratorPropertyValue properties ''template'' of
                       None \<Rightarrow> Done (log Debug (SkipNoInlineTemplate filePath) st)
                     | Some templateContent \<Rightarrow>
                         (let componentDir = dirname filePath;
                              componentBaseName = basename filePath ''.ts'';
                              htmlFileName = componentBaseName @ ''.html'';
                              htmlFilePath = normalizePath (join componentDir htmlFileName);
                              relativeHtmlPath = ''./'' @ htmlFileName
                          in
                            (case createHtmlFile htmlFilePath templateContent
                                    (log Info (Processing filePath) st) of
                               Thrown f st1 \<Rightarrow> Thrown f st1
                             | Done st1 \<Rightarrow>
                                 (case getDecoratorPropertyNode properties ''template'' of
                                    None \<Rightarrow> Done (log Error (PropertyNodeNotFound filePath) st1)
                                  | Some templatePropertyNode \<Rightarrow>
                                      replaceTemplate filePath content (length properties)
                                        templatePropertyNode relativeHtmlPath st1)))))))"

text \<open>
  \<open>visit\<close> lists the files of the directory first and calls the visitor on each in turn;
  a throw of the visitor ends the walk, nothing in \<open>index.ts\<close> catches it.
\<close>

fun visitAll :: "(path \<Rightarrow> string \<Rightarrow> node) \<Rightarrow> path list \<Rightarrow> state \<Rightarrow> outcome" where
  "visitAll parse [] st = Done st"
| "visitAll parse (filePath # rest) st =
     (case visitFile parse filePath st of
        Thrown f st1 \<Rightarrow> Thrown f st1
      | Done st1 \<Rightarrow> visitAll parse rest st1)"

text \<open>
  The rule. The enumeration of the discovery collaborator is an input: the file paths
  it lists, or the fault it raises.
\<close>

definition migrarTemplates ::
  "(path \<Rightarrow> string \<Rightarrow> node) \<Rightarrow> fault + path list \<Rightarrow> state \<Rightarrow> outcome" where
  "migrarTemplates parse enumeration st =
     (case enumeration of
        Inl f \<Rightarrow> Thrown f (log Info Searching st)
      | Inr files \<Rightarrow>
          (case visitAll parse files (log Info Searching st) of
             Thrown f st1 \<Rightarrow> Thrown f st1
           | Done st1 \<Rightarrow> Done (log Info Completed st1)))"

section \<open>The variant that also migrates styles\<close>

text \<open>
  The second file of the repository with a rule \<open>migrarTemplates\<close> (its helper
  \<open>createScssFile\<close> and the handlers around the visitor exist only there). Its functions
  carry the suffix \<open>_styles\<close> where the name is taken by \<open>index.ts\<close>.
\<close>

datatype propertyValue = Scalar string | ListValue "string list"

definition elementText :: "expression \<Rightarrow> string" where
  "elementText element =
     (case element of
        StringLiteral text \<Rightarrow> text
      | NoSubstitutionTemplateLiteral text \<Rightarrow> text
      | _ \<Rightarrow> [])"

definition getDecoratorPropertyValue_styles ::
  "objectLiteralElement list \<Rightarrow> string \<Rightarrow> propertyValue option" where
  "getDecoratorPropertyValue_styles props propertyName =
     (case find (isNamed propertyName) props of
        Some (PropertyAssignment _ (StringLiteral text) _) \<Rightarrow> Some (Scalar text)
      | Some (PropertyAssignment _ (NoSubstitutionTemplateLiteral text) _) \<Rightarrow> Some (Scalar text)
      | Some (PropertyAssignment _ (ArrayLiteralExpression elements) _) \<Rightarrow>
          Some (ListValue (map elementText elements))
      | _ \<Rightarrow> None)"

fun joinWith :: "string \<Rightarrow> string list \<Rightarrow> string" where
  "joinWith sep [] = []"
| "joinWith sep [x] = x"
| "joinWith sep (x # y # ys) = x @ sep @ joinWith sep (y # ys)"

text \<open>
  \<open>tree.create(htmlFilePath, templateContent as string)\<close>: the cast is one the compiler
  alone sees. Where the value is a text, the file is created with it. Where it is a list,
  the array itself goes to \<open>create\<close>, and what the tree then holds at the path is the
  business of the library: it is the parameter \<open>contentOfList\<close> of the markup block and
  of everything that calls it.
\<close>

definition digit :: "nat \<Rightarrow> char" where
  "digit d = char_of (48 + d)"

fun decimal :: "nat \<Rightarrow> string" where
  "decimal n = (if n < 10 then [digit n] else decimal (n div 10) @ [digit (n mod 10)])"

declare decimal.simps [simp del]

definition createScssFile ::
  "tree \<Rightarrow> path \<Rightarrow> string \<Rightarrow> string \<Rightarrow> nat \<Rightarrow> fault + (tree \<times> string)" where
  "createScssFile t componentDir componentBaseName content index =
     (let scssFileName =
            (if index = 0 then componentBaseName @ ''.scss''
             else componentBaseName @ ''-'' @ decimal (index + 1) @ ''.scss'');
          scssFilePath = normalizePath (join componentDir scssFileName);
          relativeScssPath = ''./'' @ scssFileName
      in if \<not> exists t scssFilePath
         then (case create t scssFilePath content of
                 Inl f \<Rightarrow> Inl f
               | Inr t1 \<Rightarrow> Inr (t1, relativeScssPath))
         else Inr (t, relativeScssPath))"

text \<open>\<open>stylesContent.map((style, index) => createScssFile(..., style, index))\<close>\<close>

fun createScssFiles ::
  "tree \<Rightarrow> path \<Rightarrow> string \<Rightarrow> string list \<Rightarrow> nat \<Rightarrow> fault + (tree \<times> string list)" where
  "createScssFiles t componentDir componentBaseName [] index = Inr (t, [])"
| "createScssFiles t componentDir componentBaseName (style # styles) index =
     (case createScssFile t componentDir componentBaseName style index of
        Inl f \<Rightarrow> Inl f
      | Inr (t1, url) \<Rightarrow>
          (case createScssFiles t1 componentDir componentBaseName styles (Suc index) of
             Inl f \<Rightarrow> Inl f
           | Inr (t2, urls) \<Rightarrow> Inr (t2, url # urls)))"

text \<open>
  The ``safe removal range'' both blocks compute: the node from its full start to its
  end, clamped to the file, and whatever comma with white space stands in front of it.
\<close>

definition safeRemovalRange :: "string \<Rightarrow> textRange \<Rightarrow> nat \<times> nat" where
  "safeRemovalRange content propertyNode =
     (let fileLength = length content;
          removalStart = max 0 (getFullStart propertyNode);
          removalEnd = min fileLength (getEnd propertyNode)
      in (case commaMatchBefore (substringTo content removalStart) of
            Some m \<Rightarrow> (max 0 (removalStart - length m), removalEnd)
          | None \<Rightarrow> (removalStart, removalEnd)))"

definition quoted :: "string \<Rightarrow> string" where
  "quoted url = [CHR 0x27] @ url @ [CHR 0x27]"

definition templateUrlText :: "string \<Rightarrow> string" where
  "templateUrlText relativeHtmlPath =
     '','' @ [CHR 0x0A] @ ''  templateUrl: '' @ quoted relativeHtmlPath"

definition styleUrlsText :: "string list \<Rightarrow> string" where
  "styleUrlsText styleUrls =
     '','' @ [CHR 0x0A] @ ''  styleUrls: ['' @ joinWith '', '' (map quoted styleUrls) @ '']''"

text \<open>The block ``Handle template migration''.\<close>

definition migrateTemplate_styles ::
  "(string list \<Rightarrow> string) \<Rightarrow> path \<Rightarrow> string \<Rightarrow> objectLiteralElement list \<Rightarrow> state
     \<Rightarrow> outcome" where
  "migrateTemplate_styles contentOfList filePath content properties st =
     (if list_ex (isNamed ''templateUrl'') properties then Done st
      else
        (case getDecoratorPropertyValue_styles properties ''template'' of
           None \<Rightarrow> Done st
         | Some templateContent \<Rightarrow>
             (let componentDir = dirname filePath;
                  componentBaseName = basename filePath ''.ts'';
                  htmlFileName = componentBaseName @ ''.html'';
                  htmlFilePath = normalizePath (join componentDir htmlFileName);
                  relativeHtmlPath = ''./'' @ htmlFileName
              in
                (case (if \<not> exists (tree st) htmlFilePath
                       then create (tree st) htmlFilePath
                              (case templateContent of
                                 Scalar text \<Rightarrow> text
                               | ListValue texts \<Rightarrow> contentOfList texts)
                       else Inr (tree st)) of
                   Inl f \<Rightarrow> Thrown f st
                 | Inr t1 \<Rightarrow>
                     (let st1 = st\<lparr>tree := t1\<rparr> in
                      case getDecoratorPropertyNode properties ''template'' of
                        None \<Rightarrow> Done st1
                      | Some templatePropertyNode \<Rightarrow>
                          (case beginUpdate (tree st1) filePath of
                             Inl f \<Rightarrow> Thrown f st1
                           | Inr recorder \<Rightarrow>
                               (case safeRemovalRange content templatePropertyNode of
                                  (removalStart, removalEnd) \<Rightarrow>
                                    if removalStart < length content \<and> removalEnd \<le> length content
                                    then
                                      (case remove removalStart
                                              (int removalEnd - int removalStart) recorder of
                                         Inl f \<Rightarrow> Thrown f st1
                                       | Inr r1 \<Rightarrow>
                                           (case insertLeft removalStart
                                                   (templateUrlText relativeHtmlPath) r1 of
                                              Inl f \<Rightarrow> Thrown f st1
                                            | Inr r2 \<Rightarrow>
                                                (case commitUpdate (tree st1) r2 of
                                                   Inl f \<Rightarrow> Thrown f st1
                                                 | Inr t2 \<Rightarrow> Done (st1\<lparr>tree := t2\<rparr>))))
                                    else Done (log Warn (InvalidRemovalRange Template filePath)
                                                 st1))))))))"

text \<open>
  The block ``Handle styles migration''. The recorder is begun on the file as the tree
  holds it by then; \<open>content\<close> and the node are those of the text read at the start.
\<close>

definition migrateStyles_styles ::
  "path \<Rightarrow> string \<Rightarrow> objectLiteralElement list \<Rightarrow> state \<Rightarrow> outcome" where
  "migrateStyles_styles filePath content properties st =
     (if list_ex (isNamed ''styleUrls'') properties then Done st
      else
        (case getDecoratorPropertyValue_styles properties ''styles'' of
           None \<Rightarrow> Done st
         | Some stylesContent \<Rightarrow>
             (let componentDir = dirname filePath;
                  componentBaseName = basename filePath ''.ts''
              in
                (case getDecoratorPropertyNode properties ''styles'' of
                   None \<Rightarrow> Done st
                 | Some stylesPropertyNode \<Rightarrow>
                     (case beginUpdate (tree st) filePath of
                        Inl f \<Rightarrow> Thrown f st
                      | Inr recorder \<Rightarrow>
                          (case safeRemovalRange content stylesPropertyNode of
                             (removalStart, removalEnd) \<Rightarrow>
                               if removalStart < length content \<and> removalEnd \<le> length content
                               then
                                 (case remove removalStart
                                         (int removalEnd - int removalStart) recorder of
                                    Inl f \<Rightarrow> Thrown f st
                                  | Inr r1 \<Rightarrow>
                                      (case (case stylesContent of
                                               ListValue styles \<Rightarrow>
                                                 createScssFiles (tree st) componentDir
                                                   componentBaseName styles 0
                                             | Scalar style \<Rightarrow>
                                                 (case createScssFile (tree st) componentDir
                                                         componentBaseName style 0 of
                                                    Inl f \<Rightarrow> Inl f
                                                  | Inr (t1, scssPath) \<Rightarrow> Inr (t1, [scssPath]))) of
                                         Inl f \<Rightarrow> Thrown f st
                                       | Inr (t1, styleUrls) \<Rightarrow>
                                           (let st1 = st\<lparr>tree := t1\<rparr> in
                                            case insertLeft removalStart
                                                   (styleUrlsText styleUrls) r1 of
                                              Inl f \<Rightarrow> Thrown f st1
                                            | Inr r2 \<Rightarrow>
                                                (case commitUpdate (tree st1) r2 of
                                                   Inl f \<Rightarrow> Thrown f st1
                                                 | Inr t2 \<Rightarrow> Done (st1\<lparr>tree := t2\<rparr>)))))
                               else Done (log Warn (InvalidRemovalRange Styles filePath) st)))))))"

text \<open>The body of the inner \<open>try\<close>: what the visitor does with one file path.\<close>

definition processFile_styles ::
  "(string list \<Rightarrow> string) \<Rightarrow> (path \<Rightarrow> string \<Rightarrow> node) \<Rightarrow> path \<Rightarrow> state \<Rightarrow> outcome" where
  "processFile_styles contentOfList parse filePath st =
     (if \<not> endsWith (pathString filePath) ''.component.ts''
      then Done (log Debug SkipNotComponentFile st)
      else
        (case read (tree st) filePath of
           None \<Rightarrow> Done (log Warn (CouldNotRead filePath) st)
         | Some content \<Rightarrow>
             (case findComponentDecorator (parse filePath content) of
                None \<Rightarrow> Done (log Debug DecoratorNotFound st)
              | Some properties \<Rightarrow>
                  (case migrateTemplate_styles contentOfList filePath content properties st of
                     Thrown f st1 \<Rightarrow> Thrown f st1
                   | Done st1 \<Rightarrow> migrateStyles_styles filePath content properties st1))))"

text \<open>The visitor: the inner \<open>catch\<close> turns a throw into three error lines.\<close>

definition visitFile_styles ::
  "(string list \<Rightarrow> string) \<Rightarrow> (path \<Rightarrow> string \<Rightarrow> node) \<Rightarrow> path \<Rightarrow> state \<Rightarrow> state" where
  "visitFile_styles contentOfList parse filePath st =
     (case processFile_styles contentOfList parse filePath st of
        Done st1 \<Rightarrow> st1
      | Thrown f st1 \<Rightarrow>
          log Error (FaultStack f)
            (log Error (FaultMessage f) (log Error (ErrorProcessingFile filePath) st1)))"

fun visitAll_styles ::
  "(string list \<Rightarrow> string) \<Rightarrow> (path \<Rightarrow> string \<Rightarrow> node) \<Rightarrow> path list \<Rightarrow> state \<Rightarrow> state" where
  "visitAll_styles contentOfList parse [] st = st"
| "visitAll_styles contentOfList parse (filePath # rest) st =
     visitAll_styles contentOfList parse rest (visitFile_styles contentOfList parse filePath st)"

text \<open>
  The rule: the outer \<open>catch\<close> sees only a fault of the enumeration itself, logs it as
  fatal and throws it on.
\<close>

definition migrarTemplates_styles ::
  "(string list \<Rightarrow> string) \<Rightarrow> (path \<Rightarrow> string \<Rightarrow> node) \<Rightarrow> fault + path list \<Rightarrow> state
     \<Rightarrow> outcome" where
  "migrarTemplates_styles contentOfList parse enumeration st =
     (case enumeration of
        Inl f \<Rightarrow>
          Thrown f (log Fatal (FaultStack f)
                     (log Fatal (FaultMessage f)
                        (log Fatal FatalTraversal (log Info Searching st))))
      | Inr files \<Rightarrow>
          Done (log Info Completed
                  (visitAll_styles contentOfList parse files (log Info Searching st))))"

section \<open>The variant that always puts a comma in front\<close>

text \<open>
  A third file of the repository with a rule \<open>migrarTemplates\<close> handles markup only, like
  \<open>index.ts\<close>, and differs from it in the splice: the removal always takes the comma in
  front of the entry along, and the inserted text always begins with a comma and a line
  break. Only that block is modelled.
\<close>

definition replaceTemplate_prefix ::
  "path \<Rightarrow> string \<Rightarrow> textRange \<Rightarrow> string \<Rightarrow> state \<Rightarrow> outcome" where
  "replaceTemplate_prefix filePath text templatePropertyNode relativeHtmlPath st =
     (case beginUpdate (tree st) filePath of
        Inl f \<Rightarrow> Thrown f st
      | Inr recorder \<Rightarrow>
          (let removalEnd = getEnd templatePropertyNode;
               removalStart =
                 (case commaMatchBefore (substringTo text (getFullStart templatePropertyNode)) of
                    Some m \<Rightarrow> getFullStart templatePropertyNode - length m
                  | None \<Rightarrow> getFullStart templatePropertyNode)
           in
             (case remove removalStart (int removalEnd - int removalStart) recorder of
                Inl f \<Rightarrow> Thrown f st
              | Inr r1 \<Rightarrow>
                  (case insertLeft (getStart templatePropertyNode)
                          ('','' @ [CHR 0x0A] @ ''  '' @ newTemplateUrlProperty relativeHtmlPath) r1 of
                     Inl f \<Rightarrow> Thrown f st
                   | Inr r2 \<Rightarrow>
                       (case commitUpdate (tree st) r2 of
                          Inl f \<Rightarrow> Thrown f st
                        | Inr t \<Rightarrow> Done (log Info (Updated filePath) (st\<lparr>tree := t\<rparr>)))))))"

section \<open>Auxiliary definitions for the proofs\<close>

text \<open>What the recorder emits at offset \<open>i\<close> after one removal and one insertion.\<close>

definition spliced :: "nat \<Rightarrow> nat \<Rightarrow> nat \<Rightarrow> string \<Rightarrow> string \<Rightarrow> nat \<Rightarrow> string" where
  "spliced s e p ins c i =
     (if i = p then ins else []) @ (if i < length c \<and> \<not> (s \<le> i \<and> i < e) then [c ! i] else [])"

text \<open>The offsets of a node lie in the text, in their order.\<close>

definition rangeInText :: "string \<Rightarrow> textRange \<Rightarrow> bool" where
  "rangeInText text n =
     (getFullStart n \<le> getStart n \<and> getStart n \<le> getEnd n \<and> getEnd n \<le> length text)"

text \<open>The file name passes the filter of the visitor.\<close>

definition isComponentFile :: "path \<Rightarrow> bool" where
  "isComponentFile p = endsWith (pathString p) ''.component.ts''"

text \<open>
  The guards of \<open>index.ts\<close> in front of its ``required actions'', on the text of a file:
  a decorator is found, it has no \<open>templateUrl\<close> entry, and its \<open>template\<close> entry has a
  literal value.
\<close>

definition templateFires :: "(path \<Rightarrow> string \<Rightarrow> node) \<Rightarrow> path \<Rightarrow> string \<Rightarrow> bool" where
  "templateFires parse p c =
     (case findComponentDecorator (parse p c) of
        None \<Rightarrow> False
      | Some properties \<Rightarrow>
          \<not> list_ex (isNamed ''templateUrl'') properties
          \<and> getDecoratorPropertyValue properties ''template'' \<noteq> None)"

text \<open>The path of the markup file of a unit, as the visitor computes it.\<close>

definition htmlFilePathOf :: "path \<Rightarrow> path" where
  "htmlFilePathOf filePath =
     normalizePath (join (dirname filePath) (basename filePath ''.ts'' @ ''.html''))"

text \<open>The diagnostics that report a file created or rewritten.\<close>

fun isEdit :: "message \<Rightarrow> bool" where
  "isEdit (Created p) = True"
| "isEdit (Updated p) = True"
| "isEdit (Processing p) = True"
| "isEdit m = False"

text \<open>The state after the markup file of a unit has been looked after (lines 133 to 150).\<close>

definition afterHtmlFile :: "path \<Rightarrow> string \<Rightarrow> state \<Rightarrow> state" where
  "afterHtmlFile p templateContent st =
     (if tree st (htmlFilePathOf p) \<noteq> None
      then log Warn (HtmlExists (htmlFilePathOf p)) (log Info (Processing p) st)
      else log Debug (Created (htmlFilePathOf p))
             ((log Info (Processing p) st)
                \<lparr>tree := (tree st)(htmlFilePathOf p \<mapsto> templateContent)\<rparr>))"

text \<open>The text a unit is rewritten to, given the removal range.\<close>

definition rewrittenText :: "path \<Rightarrow> string \<Rightarrow> nat \<times> nat \<times> bool \<Rightarrow> string" where
  "rewrittenText p c rng =
     (case rng of
        (removalStart, removalEnd, needsCommaInserted) \<Rightarrow>
          take removalStart c
            @ newTemplateUrlProperty (''./'' @ basename p ''.ts'' @ ''.html'')
            @ (if needsCommaInserted then '','' else [])
            @ drop removalEnd c)"

text \<open>The file name \<open>createScssFile\<close> gives the style sheet number \<open>index\<close>.\<close>

definition scssFileNameOf :: "string \<Rightarrow> nat \<Rightarrow> string" where
  "scssFileNameOf componentBaseName index =
     (if index = 0 then componentBaseName @ ''.scss''
      else componentBaseName @ ''-'' @ decimal (index + 1) @ ''.scss'')"

text \<open>The value shapes \<open>index.ts\<close> reads, and those the variant with styles reads.\<close>

fun literalValue :: "expression \<Rightarrow> bool" where
  "literalValue (StringLiteral text) = True"
| "literalValue (NoSubstitutionTemplateLiteral text) = True"
| "literalValue e = False"

fun literalOrList :: "expression \<Rightarrow> bool" where
  "literalOrList (ArrayLiteralExpression elements) = True"
| "literalOrList e = literalValue e"

text \<open>The block has an entry keyed by the identifier \<open>name\<close> whose value has the shape \<open>ok\<close>.\<close>

definition entryWith :: "(expression \<Rightarrow> bool) \<Rightarrow> string \<Rightarrow> objectLiteralElement list \<Rightarrow> bool" where
  "entryWith ok name props =
     (case find (isNamed name) props of
        Some (PropertyAssignment _ e _) \<Rightarrow> ok e
      | _ \<Rightarrow> False)"

text \<open>The fault an outcome carries, if it is a throw.\<close>

fun faultOf :: "outcome \<Rightarrow> fault option" where
  "faultOf (Done st) = None"
| "faultOf (Thrown f st) = Some f"

text \<open>What is seen of an outcome: its fault, two files of its tree and its log.\<close>

fun observe ::
  "outcome \<Rightarrow> path \<Rightarrow> path \<Rightarrow> fault option \<times> string option \<times> string option \<times> (level \<times> message) list" where
  "observe (Done st) p q = (None, tree st p, tree st q, logger st)"
| "observe (Thrown f st) p q = (Some f, tree st p, tree st q, logger st)"

section \<open>Concrete units\<close>

text \<open>
  A source file whose only statement is a class with the decorator
  \<open>@Component({...})\<close>, given the entries of the object literal.
\<close>

definition componentSource :: "objectLiteralElement list \<Rightarrow> node" where
  "componentSource props =
     OtherNode [ClassDeclaration
                  [CallExpression (CalleeIdentifier ''Component'') [ObjectLiteralExpression props]]
                  []]"

text \<open>
  The variant with styles takes what the tree holds for a template that is a list as a
  parameter. The units below are run with the empty text in its place; where the template
  of a unit is a list, the markup file is not looked at.
\<close>

definition emptyContent :: "string list \<Rightarrow> string" where
  "emptyContent texts = []"

text \<open>
  Scenario A: the file \<open>/x.component.ts\<close> with the block
  \<open>{ selector: 'x', template: '<p>hi</p>' }\<close>. The block opens at offset 11; the entry
  \<open>selector\<close> has its full start at 12 (after the brace), its first token at 13 and its
  end at 26; the comma is at 26; the entry \<open>template\<close> has its full start at 27, its
  first token at 28 and its end at 49.
\<close>

definition scenarioA_path :: path where
  "scenarioA_path = [''x.component.ts'']"

definition scenarioA_text :: string where
  "scenarioA_text =
     ''@Component({ selector: 'x', template: '<p>hi</p>' })'' @ [CHR 0x0A]
       @ ''export class XComponent {}''"

definition scenarioA_ast :: node where
  "scenarioA_ast =
     componentSource
       [PropertyAssignment (Identifier ''selector'') (StringLiteral ''x'')
          \<lparr>getFullStart = 12, getStart = 13, getEnd = 26\<rparr>,
        PropertyAssignment (Identifier ''template'') (StringLiteral ''<p>hi</p>'')
          \<lparr>getFullStart = 27, getStart = 28, getEnd = 49\<rparr>]"

definition scenarioA_state :: state where
  "scenarioA_state =
     \<lparr>tree = Map.empty(scenarioA_path \<mapsto> scenarioA_text, [''README.md''] \<mapsto> ''# x''),
      logger = []\<rparr>"

text \<open>
  The file \<open>/ideas.component.ts\<close> with three entries, the literal one last:
  \<open>{ selector: 'app-ideas', standalone: true, template: '<h1>Ideas</h1>' }\<close>.
  Entries at 12/13/34, 35/36/52 and 53/54/80 (full start, first token, end), commas at
  34 and 52.
\<close>

definition ideas_path :: path where
  "ideas_path = [''ideas.component.ts'']"

definition ideas_text :: string where
  "ideas_text =
     ''@Component({ selector: 'app-ideas', standalone: true, template: '<h1>Ideas</h1>' })''
       @ [CHR 0x0A] @ ''export class IdeasComponent {}''"

definition ideas_properties :: "objectLiteralElement list" where
  "ideas_properties =
     [PropertyAssignment (Identifier ''selector'') (StringLiteral ''app-ideas'')
        \<lparr>getFullStart = 12, getStart = 13, getEnd = 34\<rparr>,
      PropertyAssignment (Identifier ''standalone'') OtherExpression
        \<lparr>getFullStart = 35, getStart = 36, getEnd = 52\<rparr>,
      PropertyAssignment (Identifier ''template'') (StringLiteral ''<h1>Ideas</h1>'')
        \<lparr>getFullStart = 53, getStart = 54, getEnd = 80\<rparr>]"

definition ideas_state :: state where
  "ideas_state = \<lparr>tree = Map.empty(ideas_path \<mapsto> ideas_text), logger = []\<rparr>"

text \<open>The example of C10: the reference entry is there, keyed by a string literal.\<close>

definition stringKey_text :: string where
  "stringKey_text =
     ''@Component({ template: '<p>hi</p>', '' @ [CHR 0x22] @ ''templateUrl'' @ [CHR 0x22]
       @ '': './a.html' })'' @ [CHR 0x0A] @ ''export class XComponent {}''"

definition stringKey_properties :: "objectLiteralElement list" where
  "stringKey_properties =
     [PropertyAssignment (Identifier ''template'') (StringLiteral ''<p>hi</p>'')
        \<lparr>getFullStart = 12, getStart = 13, getEnd = 34\<rparr>,
      PropertyAssignment (StringLiteralName ''templateUrl'') (StringLiteral ''./a.html'')
        \<lparr>getFullStart = 35, getStart = 36, getEnd = 61\<rparr>]"

text \<open>Scenario A with the markup file already there.\<close>

definition scenarioA_existing :: state where
  "scenarioA_existing =
     \<lparr>tree = Map.empty(scenarioA_path \<mapsto> scenarioA_text, [''x.component.html''] \<mapsto> ''<b>old</b>''),
      logger = []\<rparr>"

text \<open>
  A unit with the literal entry first, and a parser that reads that text and the text
  the rule rewrites it to:
  \<open>{ template: '<p>hi</p>', selector: 'x' }\<close> becomes
  \<open>{templateUrl: './x.component.html', selector: 'x' }\<close>.
\<close>

definition first_text :: string where
  "first_text =
     ''@Component({ template: '<p>hi</p>', selector: 'x' })'' @ [CHR 0x0A]
       @ ''export class XComponent {}''"

definition first_parse :: "path \<Rightarrow> string \<Rightarrow> node" where
  "first_parse p c =
     (if c = first_text
      then componentSource
             [PropertyAssignment (Identifier ''template'') (StringLiteral ''<p>hi</p>'')
                \<lparr>getFullStart = 12, getStart = 13, getEnd = 34\<rparr>,
              PropertyAssignment (Identifier ''selector'') (StringLiteral ''x'')
                \<lparr>getFullStart = 35, getStart = 36, getEnd = 49\<rparr>]
      else componentSource
             [PropertyAssignment (Identifier ''templateUrl'') (StringLiteral ''./x.component.html'')
                \<lparr>getFullStart = 12, getStart = 12, getEnd = 45\<rparr>,
              PropertyAssignment (Identifier ''selector'') (StringLiteral ''x'')
                \<lparr>getFullStart = 46, getStart = 47, getEnd = 60\<rparr>])"

definition first_state :: state where
  "first_state = \<lparr>tree = Map.empty(scenarioA_path \<mapsto> first_text), logger = []\<rparr>"

text \<open>
  Two units for the variant with styles: the block \<open>{ selector: 'x', styles: ['a{}'] }\<close>,
  and the block \<open>{ selector: 'x', styles: [theme] }\<close> whose list holds an identifier.
  In both the entry \<open>styles\<close> has its full start at 27, its first token at 28 and its
  end at 43.
\<close>

definition stylesOnly_text :: string where
  "stylesOnly_text =
     ''@Component({ selector: 'x', styles: ['a{}'] })'' @ [CHR 0x0A]
       @ ''export class XComponent {}''"

definition stylesOnly_properties :: "objectLiteralElement list" where
  "stylesOnly_properties =
     [PropertyAssignment (Identifier ''selector'') (StringLiteral ''x'')
        \<lparr>getFullStart = 12, getStart = 13, getEnd = 26\<rparr>,
      PropertyAssignment (Identifier ''styles'') (ArrayLiteralExpression [StringLiteral ''a{}''])
        \<lparr>getFullStart = 27, getStart = 28, getEnd = 43\<rparr>]"

definition themed_text :: string where
  "themed_text =
     ''@Component({ selector: 'x', styles: [theme] })'' @ [CHR 0x0A]
       @ ''export class XComponent {}''"

definition themed_properties :: "objectLiteralElement list" where
  "themed_properties =
     [PropertyAssignment (Identifier ''selector'') (StringLiteral ''x'')
        \<lparr>getFullStart = 12, getStart = 13, getEnd = 26\<rparr>,
      PropertyAssignment (Identifier ''styles'') (ArrayLiteralExpression [OtherExpression])
        \<lparr>getFullStart = 27, getStart = 28, getEnd = 43\<rparr>]"

text \<open>
  The sample component of the repository, \<open>ideas.component.ts\<close>, under \<open>/src/app\<close>.
  Its block has five entries; full start, first token and end of each:
  \<open>selector\<close> 104/107/128, \<open>standalone\<close> 129/132/148, \<open>imports\<close> 149/152/175,
  \<open>template\<close> 176/179/259, \<open>styles\<close> 260/263/440; a comma follows each of them.
\<close>

definition sample_text :: string where
  "sample_text =
     ''import { Component } from '@angular/core';''
       @ [CHR 0x0A]
       @ ''import { CommonModule } from '@angular/common';''
       @ [CHR 0x0A]
       @ [CHR 0x0A]
       @ ''@Component({''
       @ [CHR 0x0A]
       @ ''  selector: 'app-ideas',''
       @ [CHR 0x0A]
       @ ''  standalone: true,''
       @ [CHR 0x0A]
       @ ''  imports: [CommonModule],''
       @ [CHR 0x0A]
       @ ''  template: `''
       @ [CHR 0x0A]
       @ ''    <h1>Ideas</h1>''
       @ [CHR 0x0A]
       @ ''    <p>Your ideas will be displayed here.</p>''
       @ [CHR 0x0A]
       @ ''  `,''
       @ [CHR 0x0A]
       @ ''  styles: [''
       @ [CHR 0x0A]
       @ ''    `''
       @ [CHR 0x0A]
       @ ''      .contenedor {''
       @ [CHR 0x0A]
       @ ''        padding: 20px;''
       @ [CHR 0x0A]
       @ ''        border: 1px solid #ccc;''
       @ [CHR 0x0A]
       @ ''        border-radius: 5px;''
       @ [CHR 0x0A]
       @ ''      }''
       @ [CHR 0x0A]
       @ ''      h1 {''
       @ [CHR 0x0A]
       @ ''        color: blue;''
       @ [CHR 0x0A]
       @ ''      }''
       @ [CHR 0x0A]
       @ ''    `,''
       @ [CHR 0x0A]
       @ ''  ],''
       @ [CHR 0x0A]
       @ ''})''
       @ [CHR 0x0A]
       @ ''export class IdeasComponent {}''
       @ [CHR 0x0A]"

definition sample_template :: string where
  "sample_template =
     [CHR 0x0A]
       @ ''    <h1>Ideas</h1>''
       @ [CHR 0x0A]
       @ ''    <p>Your ideas will be displayed here.</p>''
       @ [CHR 0x0A]
       @ ''  ''"

definition sample_style :: string where
  "sample_style =
     [CHR 0x0A]
       @ ''      .contenedor {''
       @ [CHR 0x0A]
       @ ''        padding: 20px;''
       @ [CHR 0x0A]
       @ ''        border: 1px solid #ccc;''
       @ [CHR 0x0A]
       @ ''        border-radius: 5px;''
       @ [CHR 0x0A]
       @ ''      }''
       @ [CHR 0x0A]
       @ ''      h1 {''
       @ [CHR 0x0A]
       @ ''        color: blue;''
       @ [CHR 0x0A]
       @ ''      }''
       @ [CHR 0x0A]
       @ ''    ''"

definition sample_path :: path where
  "sample_path = [''src'', ''app'', ''ideas.component.ts'']"

definition sample_properties :: "objectLiteralElement list" where
  "sample_properties =
     [PropertyAssignment (Identifier ''selector'') (StringLiteral ''app-ideas'')
        \<lparr>getFullStart = 104, getStart = 107, getEnd = 128\<rparr>,
      PropertyAssignment (Identifier ''standalone'') OtherExpression
        \<lparr>getFullStart = 129, getStart = 132, getEnd = 148\<rparr>,
      PropertyAssignment (Identifier ''imports'') (ArrayLiteralExpression [OtherExpression])
        \<lparr>getFullStart = 149, getStart = 152, getEnd = 175\<rparr>,
      PropertyAssignment (Identifier ''template'') (NoSubstitutionTemplateLiteral sample_template)
        \<lparr>getFullStart = 176, getStart = 179, getEnd = 259\<rparr>,
      PropertyAssignment (Identifier ''styles'')
        (ArrayLiteralExpression [NoSubstitutionTemplateLiteral sample_style])
        \<lparr>getFullStart = 260, getStart = 263, getEnd = 440\<rparr>]"

definition sample_parse :: "path \<Rightarrow> string \<Rightarrow> node" where
  "sample_parse p c = componentSource sample_properties"

definition sample_state :: state where
  "sample_state = \<lparr>tree = Map.empty(sample_path \<mapsto> sample_text), logger = []\<rparr>"

text \<open>The sample after the markup block of the variant with styles alone.\<close>

definition sample_half_migrated :: string where
  "sample_half_migrated =
     ''import { Component } from '@angular/core';''
       @ [CHR 0x0A]
       @ ''import { CommonModule } from '@angular/common';''
       @ [CHR 0x0A]
       @ [CHR 0x0A]
       @ ''@Component({''
       @ [CHR 0x0A]
       @ ''  selector: 'app-ideas',''
       @ [CHR 0x0A]
       @ ''  standalone: true,''
       @ [CHR 0x0A]
       @ ''  imports: [CommonModule],''
       @ [CHR 0x0A]
       @ ''  templateUrl: './ideas.component.html',''
       @ [CHR 0x0A]
       @ ''  styles: [''
       @ [CHR 0x0A]
       @ ''    `''
       @ [CHR 0x0A]
       @ ''      .contenedor {''
       @ [CHR 0x0A]
       @ ''        padding: 20px;''
       @ [CHR 0x0A]
       @ ''        border: 1px solid #ccc;''
       @ [CHR 0x0A]
       @ ''        border-radius: 5px;''
       @ [CHR 0x0A]
       @ ''      }''
       @ [CHR 0x0A]
       @ ''      h1 {''
       @ [CHR 0x0A]
       @ ''        color: blue;''
       @ [CHR 0x0A]
       @ ''      }''
       @ [CHR 0x0A]
       @ ''    `,''
       @ [CHR 0x0A]
       @ ''  ],''
       @ [CHR 0x0A]
       @ ''})''
       @ [CHR 0x0A]
       @ ''export class IdeasComponent {}''
       @ [CHR 0x0A]"

text \<open>
  A unit whose \<open>template\<close> is an identifier reference:
  \<open>{ selector: 'x', template: title }\<close>, the entry \<open>template\<close> at 27/28/43.
\<close>

definition titled_text :: string where
  "titled_text =
     ''@Component({ selector: 'x', template: title })'' @ [CHR 0x0A]
       @ ''export class XComponent {}''"

definition titled_properties :: "objectLiteralElement list" where
  "titled_properties =
     [PropertyAssignment (Identifier ''selector'') (StringLiteral ''x'')
        \<lparr>getFullStart = 12, getStart = 13, getEnd = 26\<rparr>,
      PropertyAssignment (Identifier ''template'') OtherExpression
        \<lparr>getFullStart = 27, getStart = 28, getEnd = 43\<rparr>]"

definition srcX_path :: path where
  "srcX_path = [''src'', ''x.component.ts'']"

text \<open>
  The text \<open>index.ts\<close> rewrites \<open>/ideas.component.ts\<close> to, and what a parser makes of it.
  The inserted entry follows the value of \<open>standalone\<close> with nothing between them, so the
  scanner reads one identifier \<open>truetemplateUrl\<close>, the value of \<open>standalone\<close> (36 to 63); the
  colon at 63 fits nowhere and is dropped; the string at 65 to 89 is left as the key of
  an entry without a value. No token of the text is the identifier \<open>templateUrl\<close>.
\<close>

definition fused_text :: string where
  "fused_text =
     ''@Component({ selector: 'app-ideas', standalone: truetemplateUrl: './ideas.component.html' })''
       @ [CHR 0x0A] @ ''export class IdeasComponent {}''"



text \<open>
  A unit whose \<open>template\<close> is a list: \<open>{ selector: 'x', template: ['<p>hi</p>'] }\<close>, the
  entry \<open>template\<close> at 27/28/51.
\<close>

definition listed_text :: string where
  "listed_text =
     ''@Component({ selector: 'x', template: ['<p>hi</p>'] })'' @ [CHR 0x0A]
       @ ''export class XComponent {}''"


text \<open>The sample component with its style sheet already in the tree.\<close>

definition sample_existing :: state where
  "sample_existing =
     \<lparr>tree = Map.empty(sample_path \<mapsto> sample_text,
                        [''src'', ''app'', ''ideas.component.scss''] \<mapsto> ''.old {}''),
      logger = []\<rparr>"

section \<open>The update recorder: one removal and one insertion\<close>

lemma concat_single_nth: "s \<le> length c \<Longrightarrow> concat (map (\<lambda>i. [c ! i]) [0..<s]) = take s c"
proof -
  assume a: "s \<le> length c"
  have "concat (map (\<lambda>i. [c ! i]) [0..<s]) = map ((!) c) [0..<s]"
    by (induction s) auto
  also have "\<dots> = take s c" using a
    by (metis map_nth take_map take_upt add_0)
  finally show ?thesis .
qed

lemma concat_pick: "concat (map (\<lambda>i. if i = p then ins else []) [a..<b]) = (if a \<le> p \<and> p < b then ins else [])"
  by (induction b) auto

lemma concat_tail_nth:
  "e \<le> length c \<Longrightarrow>
   concat (map (\<lambda>i. if i < length c then [c ! i] else []) [e..<Suc (length c)]) = drop e c"
proof -
  assume a: "e \<le> length c"
  have "concat (map (\<lambda>i. if i < length c then [c ! i] else []) [e..<Suc (length c)])
        = concat (map (\<lambda>i. if i < length c then [c ! i] else []) [e..<length c])"
    using a by simp
  also have "\<dots> = concat (map (\<lambda>i. [c ! i]) [e..<length c])"
    by (rule arg_cong[where f=concat]) (rule map_cong, auto)
  also have "\<dots> = map ((!) c) [e..<length c]"
    by (simp add: concat_map_singleton)
  also have "\<dots> = drop e c"
    by (metis drop_map drop_upt map_nth add_0)
  finally show ?thesis .
qed

lemma concat_spliced:
  assumes "s \<le> p" "p \<le> e" "e \<le> length c"
  shows "concat (map (spliced s e p ins c) [0..<Suc (length c)]) = take s c @ ins @ drop e c"
proof -
  let ?f = "spliced s e p ins c"
  have split: "[0..<Suc (length c)] = [0..<s] @ [s..<e] @ [e..<Suc (length c)]"
    using assms by (metis le_Suc_eq le_trans upt_add_eq_append zero_le le_add_diff_inverse)
  have whole: "concat (map ?f [0..<Suc (length c)])
      = concat (map ?f [0..<s]) @ concat (map ?f [s..<e]) @ concat (map ?f [e..<Suc (length c)])"
    by (subst split) (simp only: map_append concat_append)
  have "map ?f [0..<s] = map (\<lambda>i. [c ! i]) [0..<s]"
    using assms by (intro map_cong) (auto simp: spliced_def)
  then have p1: "concat (map ?f [0..<s]) = take s c"
    using assms by (simp only: concat_single_nth)
  have "map ?f [s..<e] = map (\<lambda>i. if i = p then ins else []) [s..<e]"
    using assms by (intro map_cong) (auto simp: spliced_def)
  then have p2: "concat (map ?f [s..<e]) = (if p < e then ins else [])"
    using assms by (simp only: concat_pick) simp
  have p3: "concat (map ?f [e..<Suc (length c)]) = (if p < e then [] else ins) @ drop e c"
  proof (cases "p = e")
    case True
    show ?thesis
    proof (cases "e < length c")
      case lt: True
      have u: "[e..<Suc (length c)] = e # [Suc e..<Suc (length c)]"
        using assms by (simp add: upt_conv_Cons del: upt_Suc)
      have m: "map ?f [Suc e..<Suc (length c)]
            = map (\<lambda>i. if i < length c then [c ! i] else []) [Suc e..<Suc (length c)]"
        using True by (intro map_cong) (auto simp: spliced_def)
      have h: "?f e = ins @ [c ! e]"
        using True lt by (simp add: spliced_def)
      have t: "concat (map (\<lambda>i. if i < length c then [c ! i] else []) [Suc e..<Suc (length c)]) = drop (Suc e) c"
        using lt by (intro concat_tail_nth) simp
      have "concat (map ?f [e..<Suc (length c)]) = ins @ [c ! e] @ drop (Suc e) c"
        by (simp only: u list.map concat.simps m h t append_assoc)
      then show ?thesis using True lt by (simp add: Cons_nth_drop_Suc)
    next
      case ge: False
      then have "e = length c" using assms by simp
      then show ?thesis using True by (simp add: spliced_def)
    qed
  next
    case False
    have "map ?f [e..<Suc (length c)]
            = map (\<lambda>i. if i < length c then [c ! i] else []) [e..<Suc (length c)]"
      using False assms by (intro map_cong) (auto simp: spliced_def)
    then have "concat (map ?f [e..<Suc (length c)]) = drop e c"
      using assms by (simp only: concat_tail_nth)
    then show ?thesis using False assms by simp
  qed
  show ?thesis unfolding whole p1 p2 p3 by simp
qed

lemma recorder_splice:
  assumes "s \<le> p" "p \<le> e" "e \<le> length c"
  shows "\<exists>r1 r2. remove s (int e - int s) (newRecorder q c) = Inr r1 \<and> insertLeft p ins r1 = Inr r2
          \<and> recPath r2 = q \<and> original r2 = c \<and> applyEdits r2 = take s c @ ins @ drop e c"
proof -
  let ?n = "length c"
  let ?r0 = "newRecorder q c"
  let ?r1 = "if s = e then ?r0 else ?r0\<lparr>inserted := map (\<lambda>i. if s < i \<and> int i \<le> int s + (int e - int s) then [] else inserted ?r0 ! i) [0..<Suc ?n],
       removed := map (\<lambda>i. (s \<le> i \<and> int i < int s + (int e - int s)) \<or> removed ?r0 ! i) [0..<?n]\<rparr>"
  have r1: "remove s (int e - int s) ?r0 = Inr ?r1"
    using assms by (simp add: remove_def Let_def newRecorder_def del: replicate_Suc upt_Suc)
  let ?r2 = "?r1\<lparr>inserted := (inserted ?r1)[p := inserted ?r1 ! p @ ins]\<rparr>"
  have o: "original ?r1 = c" "recPath ?r1 = q" by (simp_all add: newRecorder_def)
  have r2: "insertLeft p ins ?r1 = Inr ?r2"
    using assms unfolding insertLeft_def o by simp
  have ins1: "length (inserted ?r1) = Suc ?n" "\<And>i. i \<le> ?n \<Longrightarrow> inserted ?r1 ! i = []"
    by (auto simp: newRecorder_def simp del: replicate_Suc upt_Suc)
  have rem1: "\<And>i. i < ?n \<Longrightarrow> removed ?r1 ! i = (s \<le> i \<and> i < e)"
    using assms by (auto simp: newRecorder_def simp del: replicate_Suc upt_Suc)
  have "\<And>i. i \<in> set [0..<Suc ?n] \<Longrightarrow>
      inserted ?r2 ! i @ (if i < length (original ?r2) \<and> \<not> removed ?r2 ! i then [original ?r2 ! i] else [])
      = spliced s e p ins c i"
  proof -
    fix i assume "i \<in> set [0..<Suc ?n]"
    then have i: "i \<le> ?n" by auto
    have a: "inserted ?r2 ! i = (if i = p then ins else [])"
      using i assms ins1 by (simp add: nth_list_update del: replicate_Suc upt_Suc)
    have b: "i < ?n \<Longrightarrow> removed ?r2 ! i = (s \<le> i \<and> i < e)"
      using rem1 by simp
    have c: "original ?r2 = c" by (simp add: newRecorder_def)
    show "inserted ?r2 ! i @ (if i < length (original ?r2) \<and> \<not> removed ?r2 ! i then [original ?r2 ! i] else [])
      = spliced s e p ins c i"
      unfolding a c spliced_def using b by auto
  qed
  then have "applyEdits ?r2 = concat (map (spliced s e p ins c) [0..<Suc ?n])"
    unfolding applyEdits_def
    by (intro arg_cong[where f=concat] map_cong) (simp_all add: newRecorder_def del: upt_Suc replicate_Suc)
  then have "applyEdits ?r2 = take s c @ ins @ drop e c"
    using concat_spliced[OF assms, of ins] by simp
  moreover have "recPath ?r2 = q" "original ?r2 = c" by (simp_all add: newRecorder_def)
  ultimately show ?thesis using r1 r2 by blast
qed


section \<open>The two comma patterns\<close>

lemma commaMatchAfter_Some:
  "commaMatchAfter t = Some m \<Longrightarrow>
     m = takeWhile isWhiteSpace t @ '','' \<and> (\<exists>rest. t = m @ rest)"
  unfolding commaMatchAfter_def
  by (auto split: list.splits if_splits)
     (metis takeWhile_dropWhile_id)

lemma commaMatchAfter_length:
  assumes "commaMatchAfter t = Some m" shows "length m \<le> length t"
proof -
  obtain rest where "t = m @ rest" using commaMatchAfter_Some[OF assms] by blast
  then show ?thesis by (metis length_append le_add1)
qed

lemma commaMatchBefore_Some:
  "commaMatchBefore t = Some m \<Longrightarrow>
     m = '','' @ rev (takeWhile isWhiteSpace (rev t)) \<and> (\<exists>pre. t = pre @ m)"
proof -
  assume a: "commaMatchBefore t = Some m"
  then obtain rest where d: "dropWhile isWhiteSpace (rev t) = CHR '','' # rest"
    and m: "m = '','' @ rev (takeWhile isWhiteSpace (rev t))"
    unfolding commaMatchBefore_def by (auto split: list.splits if_splits)
  have "rev t = takeWhile isWhiteSpace (rev t) @ CHR '','' # rest"
    using d by (metis takeWhile_dropWhile_id)
  then have "t = rev rest @ '','' @ rev (takeWhile isWhiteSpace (rev t))"
    by (metis rev_append rev_rev_ident rev.simps(2) append_assoc append_Cons append_Nil rev_singleton_conv)
  then show ?thesis using m by blast
qed

lemma commaMatchBefore_length:
  assumes "commaMatchBefore t = Some m" shows "length m \<le> length t"
proof -
  obtain pre where "t = pre @ m" using commaMatchBefore_Some[OF assms] by blast
  then show ?thesis by (metis length_append le_add2)
qed

lemma commaMatchBefore_append:
  assumes "\<forall>x\<in>set ws. isWhiteSpace x"
  shows "commaMatchBefore (pre @ '','' @ ws) = Some ('','' @ ws)"
proof -
  have "\<not> isWhiteSpace CHR '',''" by (simp add: isWhiteSpace_def)
  then have "takeWhile isWhiteSpace (rev ws @ CHR '','' # rev pre) = rev ws"
    "dropWhile isWhiteSpace (rev ws @ CHR '','' # rev pre) = CHR '','' # rev pre"
    using assms by (induction ws rule: rev_induct) simp_all
  then show ?thesis by (simp add: commaMatchBefore_def)
qed

section \<open>index.ts: replacing the entry\<close>

lemma removalRange_bounds:
  assumes "rangeInText c n" "removalRange c k n = (rs, re, comma)"
  shows "rs \<le> getFullStart n \<and> getEnd n \<le> re \<and> re \<le> length c"
proof -
  have after: "\<And>m. commaMatchAfter (substringFrom c (getEnd n)) = Some m \<Longrightarrow>
      getEnd n + length m \<le> length c"
  proof -
    fix m assume "commaMatchAfter (substringFrom c (getEnd n)) = Some m"
    then have "length m \<le> length (drop (getEnd n) c)"
      unfolding substringFrom_def by (rule commaMatchAfter_length)
    then show "getEnd n + length m \<le> length c" using assms(1) by (auto simp: rangeInText_def)
  qed
  show ?thesis
    using assms after
    by (auto simp: removalRange_def Let_def rangeInText_def split: if_splits option.splits)
qed

lemma replaceTemplate_Done:
  assumes "tree st p = Some c" "rangeInText c n" "removalRange c k n = (rs, re, comma)"
  shows "replaceTemplate p c k n rel st =
           Done (log Info (Updated p)
                  (st\<lparr>tree := (tree st)(p \<mapsto>
                         take rs c @ (newTemplateUrlProperty rel @ (if comma then '','' else []))
                           @ drop re c)\<rparr>))"
proof -
  have b: "rs \<le> getStart n" "getStart n \<le> re" "re \<le> length c"
    using removalRange_bounds[OF assms(2,3)] assms(2) by (auto simp: rangeInText_def)
  obtain r1 r2 where r: "remove rs (int re - int rs) (newRecorder p c) = Inr r1"
      "insertLeft (getStart n) (newTemplateUrlProperty rel @ (if comma then '','' else [])) r1 = Inr r2"
      "recPath r2 = p" "original r2 = c"
      "applyEdits r2 = take rs c @ (newTemplateUrlProperty rel @ (if comma then '','' else [])) @ drop re c"
    using recorder_splice[OF b, of p "newTemplateUrlProperty rel @ (if comma then '','' else [])"] by blast
  have c: "commitUpdate (tree st) r2 = Inr ((tree st)(p \<mapsto> applyEdits r2))"
    using assms(1) r(3,4) by (simp add: commitUpdate_def)
  show ?thesis
    unfolding replaceTemplate_def beginUpdate_def assms(1) option.case sum.case assms(3) prod.case r(1,2) c r(5)
    by simp
qed

section \<open>index.ts: what the visitor does with one file\<close>

lemma remove_keeps: "remove i l r = Inr r' \<Longrightarrow> recPath r' = recPath r \<and> original r' = original r"
  by (auto simp: remove_def Let_def split: if_splits)

lemma insertLeft_keeps: "insertLeft i x r = Inr r' \<Longrightarrow> recPath r' = recPath r \<and> original r' = original r"
  by (auto simp: insertLeft_def split: if_splits)

lemma replaceTemplate_frame:
  "(\<exists>f. replaceTemplate p c k n rel st = Thrown f st) \<or>
   (\<exists>x. replaceTemplate p c k n rel st =
          Done (log Info (Updated p) (st\<lparr>tree := (tree st)(p \<mapsto> x)\<rparr>)) \<and> tree st p \<noteq> None)"
proof (cases "tree st p")
  case None
  then show ?thesis by (simp add: replaceTemplate_def beginUpdate_def)
next
  case (Some c0)
  obtain rs re comma where rr: "removalRange c k n = (rs, re, comma)"
    by (cases "removalRange c k n") auto
  show ?thesis
  proof (cases "remove rs (int re - int rs) (newRecorder p c0)")
    case (Inl f)
    then show ?thesis by (simp add: replaceTemplate_def beginUpdate_def Some rr)
  next
    case r1: (Inr r1)
    show ?thesis
    proof (cases "insertLeft (getStart n) (newTemplateUrlProperty rel @ (if comma then '','' else [])) r1")
      case (Inl f)
      then show ?thesis by (simp add: replaceTemplate_def beginUpdate_def Some rr r1)
    next
      case r2: (Inr r2)
      have "recPath r2 = p"
        using remove_keeps[OF r1] insertLeft_keeps[OF r2] by (simp add: newRecorder_def)
      then show ?thesis
        by (cases "commitUpdate (tree st) r2")
           (auto simp: replaceTemplate_def beginUpdate_def Some rr r1 r2 commitUpdate_def split: if_splits)
    qed
  qed
qed

lemma createHtmlFile_Done:
  "createHtmlFile h tc st =
     Done (if tree st h \<noteq> None then log Warn (HtmlExists h) st
           else log Debug (Created h) (st\<lparr>tree := (tree st)(h \<mapsto> tc)\<rparr>))"
  by (simp add: createHtmlFile_def exists_def create_def)

lemma getDecoratorPropertyNode_of_value:
  "getDecoratorPropertyValue props name = Some v \<Longrightarrow> \<exists>n. getDecoratorPropertyNode props name = Some n"
  by (auto simp: getDecoratorPropertyValue_def getDecoratorPropertyNode_def
           split: option.splits objectLiteralElement.splits expression.splits)

lemma visitFile_skip:
  assumes "\<not> (isComponentFile p \<and> (\<exists>c. tree st p = Some c \<and> templateFires parse p c))"
  shows "\<exists>msgs. visitFile parse p st = Done (st\<lparr>logger := logger st @ msgs\<rparr>)
           \<and> (\<forall>m\<in>set msgs. \<not> isEdit (snd m))"
proof -
  have e: "st = st\<lparr>logger := logger st @ []\<rparr>" by simp
  have l: "\<And>lv m. log lv m st = st\<lparr>logger := logger st @ [(lv, m)]\<rparr>" by (simp add: log_def)
  show ?thesis
  proof (cases "isComponentFile p")
    case False
    then have "visitFile parse p st = Done (st\<lparr>logger := logger st @ []\<rparr>)"
      by (simp add: visitFile_def isComponentFile_def)
    then show ?thesis by (intro exI[of _ "[]"]) simp
  next
    case True
    show ?thesis
    proof (cases "tree st p")
      case None
      then have "visitFile parse p st = Done (st\<lparr>logger := logger st @ [(Warn, CouldNotRead p)]\<rparr>)"
        using True by (simp add: visitFile_def isComponentFile_def read_def l)
      then show ?thesis by (intro exI[of _ "[(Warn, CouldNotRead p)]"]) simp
    next
      case (Some c)
      then have nf: "\<not> templateFires parse p c" using assms True by simp
      show ?thesis
      proof (cases "findComponentDecorator (parse p c)")
        case None
        then have "visitFile parse p st = Done (st\<lparr>logger := logger st @ []\<rparr>)"
          using True Some by (simp add: visitFile_def isComponentFile_def read_def)
        then show ?thesis by (intro exI[of _ "[]"]) simp
      next
        case props: (Some props)
        show ?thesis
        proof (cases "list_ex (isNamed ''templateUrl'') props")
          case True': True
          have "visitFile parse p st = Done (st\<lparr>logger := logger st @ [(Debug, SkipHasTemplateUrl p)]\<rparr>)"
            using True Some props True' by (simp add: visitFile_def isComponentFile_def read_def l)
          then show ?thesis by (intro exI[of _ "[(Debug, SkipHasTemplateUrl p)]"]) simp
        next
          case False
          then have "getDecoratorPropertyValue props ''template'' = None"
            using nf props by (simp add: templateFires_def)
          then have "visitFile parse p st = Done (st\<lparr>logger := logger st @ [(Debug, SkipNoInlineTemplate p)]\<rparr>)"
            using True Some props False by (simp add: visitFile_def isComponentFile_def read_def l)
          then show ?thesis by (intro exI[of _ "[(Debug, SkipNoInlineTemplate p)]"]) simp
        qed
      qed
    qed
  qed
qed

lemma visitFile_fires:
  assumes "isComponentFile p" "tree st p = Some c" "templateFires parse p c"
  shows "\<exists>props tc n. findComponentDecorator (parse p c) = Some props
          \<and> \<not> list_ex (isNamed ''templateUrl'') props
          \<and> getDecoratorPropertyValue props ''template'' = Some tc
          \<and> getDecoratorPropertyNode props ''template'' = Some n
          \<and> visitFile parse p st =
              replaceTemplate p c (length props) n (''./'' @ basename p ''.ts'' @ ''.html'')
                (if tree st (htmlFilePathOf p) \<noteq> None
                 then log Warn (HtmlExists (htmlFilePathOf p)) (log Info (Processing p) st)
                 else log Debug (Created (htmlFilePathOf p))
                        ((log Info (Processing p) st)\<lparr>tree := (tree st)(htmlFilePathOf p \<mapsto> tc)\<rparr>))"
proof -
  obtain props where props: "findComponentDecorator (parse p c) = Some props"
    and nt: "\<not> list_ex (isNamed ''templateUrl'') props"
    and v: "getDecoratorPropertyValue props ''template'' \<noteq> None"
    using assms(3) by (auto simp: templateFires_def split: option.splits)
  obtain tc where tc: "getDecoratorPropertyValue props ''template'' = Some tc" using v by auto
  obtain n where n: "getDecoratorPropertyNode props ''template'' = Some n"
    using getDecoratorPropertyNode_of_value[OF tc] by blast
  have "visitFile parse p st =
              replaceTemplate p c (length props) n (''./'' @ basename p ''.ts'' @ ''.html'')
                (if tree st (htmlFilePathOf p) \<noteq> None
                 then log Warn (HtmlExists (htmlFilePathOf p)) (log Info (Processing p) st)
                 else log Debug (Created (htmlFilePathOf p))
                        ((log Info (Processing p) st)\<lparr>tree := (tree st)(htmlFilePathOf p \<mapsto> tc)\<rparr>))"
    using assms(1,2) props nt tc n
    by (simp add: visitFile_def isComponentFile_def read_def Let_def createHtmlFile_Done
          htmlFilePathOf_def log_def)
  then show ?thesis using props nt tc n by blast
qed

section \<open>index.ts: what a run may touch\<close>

lemma endsWith_last:
  assumes "endsWith s suf" "suf \<noteq> []" shows "last s = last suf"
proof -
  have d: "drop (length s - length suf) s = suf" using assms by (simp add: endsWith_def)
  then have "s = take (length s - length suf) s @ suf" by (metis append_take_drop_id)
  then show ?thesis using assms(2) by (metis last_appendR)
qed

lemma pathString_snoc_last: "y \<noteq> [] \<Longrightarrow> last (pathString (xs @ [y])) = last y"
  by (simp add: pathString_def)

lemma htmlFilePathOf_not_component: "\<not> isComponentFile (htmlFilePathOf p)"
proof
  assume "isComponentFile (htmlFilePathOf p)"
  then have "last (pathString (htmlFilePathOf p)) = last ''.component.ts''"
    unfolding isComponentFile_def by (rule endsWith_last) simp
  moreover have "last (pathString (htmlFilePathOf p)) = last (basename p ''.ts'' @ ''.html'')"
    unfolding htmlFilePathOf_def normalizePath_def join_def by (rule pathString_snoc_last) simp
  ultimately show False by simp
qed

lemma visitFile_effect:
  "\<exists>msgs. logger (stateOf (visitFile parse p st)) = logger st @ msgs \<and>
     (\<forall>q. tree (stateOf (visitFile parse p st)) q = tree st q
        \<or> (tree st q = None \<and> q = htmlFilePathOf p \<and> (Debug, Created q) \<in> set msgs)
        \<or> (tree st q \<noteq> None \<and> tree (stateOf (visitFile parse p st)) q \<noteq> None \<and> q = p
             \<and> isComponentFile p \<and> (Info, Updated p) \<in> set msgs))"
proof (cases "isComponentFile p \<and> (\<exists>c. tree st p = Some c \<and> templateFires parse p c)")
  case False
  then obtain msgs where "visitFile parse p st = Done (st\<lparr>logger := logger st @ msgs\<rparr>)"
    using visitFile_skip by blast
  then show ?thesis by simp
next
  case True
  then obtain c where cf: "isComponentFile p" and c: "tree st p = Some c" and f: "templateFires parse p c"
    by blast
  let ?h = "htmlFilePathOf p"
  obtain props tc n where "findComponentDecorator (parse p c) = Some props"
          "\<not> list_ex (isNamed ''templateUrl'') props"
          "getDecoratorPropertyValue props ''template'' = Some tc"
          "getDecoratorPropertyNode props ''template'' = Some n"
      and v: "visitFile parse p st =
              replaceTemplate p c (length props) n (''./'' @ basename p ''.ts'' @ ''.html'')
                (if tree st ?h \<noteq> None
                 then log Warn (HtmlExists ?h) (log Info (Processing p) st)
                 else log Debug (Created ?h)
                        ((log Info (Processing p) st)\<lparr>tree := (tree st)(?h \<mapsto> tc)\<rparr>))"
    using visitFile_fires[OF cf c f] by (elim exE conjE) (rule that; assumption)
  define st1 where "st1 = (if tree st ?h \<noteq> None
                 then log Warn (HtmlExists ?h) (log Info (Processing p) st)
                 else log Debug (Created ?h)
                        ((log Info (Processing p) st)\<lparr>tree := (tree st)(?h \<mapsto> tc)\<rparr>))"
  define m1 where "m1 = (if tree st ?h \<noteq> None then (Warn, HtmlExists ?h) else (Debug, Created ?h))"
  have l1: "logger st1 = logger st @ [(Info, Processing p), m1]"
    by (simp add: log_def st1_def m1_def)
  have t1: "tree st1 = (if tree st ?h \<noteq> None then tree st else (tree st)(?h \<mapsto> tc))"
    by (simp add: log_def st1_def)
  have hp: "?h \<noteq> p" using cf htmlFilePathOf_not_component by metis
  have v': "visitFile parse p st =
      replaceTemplate p c (length props) n (''./'' @ basename p ''.ts'' @ ''.html'') st1"
    using v by (simp only: st1_def)
  have fr: "\<forall>q. tree st1 q = tree st q
        \<or> (tree st q = None \<and> q = ?h \<and> (Debug, Created q) \<in> set [(Info, Processing p), m1])"
    by (auto simp: t1 m1_def)
  consider (thrown) f where "replaceTemplate p c (length props) n (''./'' @ basename p ''.ts'' @ ''.html'') st1 = Thrown f st1"
    | (committed) x where "replaceTemplate p c (length props) n (''./'' @ basename p ''.ts'' @ ''.html'') st1 =
          Done (log Info (Updated p) (st1\<lparr>tree := (tree st1)(p \<mapsto> x)\<rparr>))"
    using replaceTemplate_frame by blast
  then show ?thesis
  proof cases
    case thrown
    then have s: "stateOf (visitFile parse p st) = st1" using v' by simp
    show ?thesis unfolding s
      by (rule exI[of _ "[(Info, Processing p), m1]"]) (use l1 fr in blast)
  next
    case committed
    then have s: "stateOf (visitFile parse p st) = log Info (Updated p) (st1\<lparr>tree := (tree st1)(p \<mapsto> x)\<rparr>)"
      using v' by simp
    have l2: "logger (log Info (Updated p) (st1\<lparr>tree := (tree st1)(p \<mapsto> x)\<rparr>)) =
        logger st @ [(Info, Processing p), m1, (Info, Updated p)]"
      by (simp add: log_def l1)
    have t2: "tree (log Info (Updated p) (st1\<lparr>tree := (tree st1)(p \<mapsto> x)\<rparr>)) = (tree st1)(p \<mapsto> x)"
      by (simp add: log_def)
    have "\<forall>q. ((tree st1)(p \<mapsto> x)) q = tree st q
        \<or> (tree st q = None \<and> q = ?h \<and> (Debug, Created q) \<in> set [(Info, Processing p), m1, (Info, Updated p)])
        \<or> (tree st q \<noteq> None \<and> ((tree st1)(p \<mapsto> x)) q \<noteq> None \<and> q = p
             \<and> isComponentFile p \<and> (Info, Updated p) \<in> set [(Info, Processing p), m1, (Info, Updated p)])"
    proof
      fix q
      show "((tree st1)(p \<mapsto> x)) q = tree st q
        \<or> (tree st q = None \<and> q = ?h \<and> (Debug, Created q) \<in> set [(Info, Processing p), m1, (Info, Updated p)])
        \<or> (tree st q \<noteq> None \<and> ((tree st1)(p \<mapsto> x)) q \<noteq> None \<and> q = p
             \<and> isComponentFile p \<and> (Info, Updated p) \<in> set [(Info, Processing p), m1, (Info, Updated p)])"
      proof (cases "q = p")
        case True
        then show ?thesis using c cf by simp
      next
        case False
        then show ?thesis using fr[rule_format, of q] by auto
      qed
    qed
    then show ?thesis unfolding s l2 t2
      by (intro exI[of _ "[(Info, Processing p), m1, (Info, Updated p)]"] conjI refl)
  qed
qed

lemma visitFile_effect_weak:
  "\<exists>msgs. logger (stateOf (visitFile parse p st)) = logger st @ msgs \<and>
     (\<forall>q. tree st q \<noteq> None \<longrightarrow>
          tree (stateOf (visitFile parse p st)) q \<noteq> None \<and>
          (tree (stateOf (visitFile parse p st)) q \<noteq> tree st q \<longrightarrow>
             q = p \<and> isComponentFile q \<and> (Info, Updated q) \<in> set msgs)) \<and>
     (\<forall>q. tree st q = None \<and> tree (stateOf (visitFile parse p st)) q \<noteq> None \<longrightarrow>
          \<not> isComponentFile q)"
proof -
  obtain msgs where m: "logger (stateOf (visitFile parse p st)) = logger st @ msgs"
    and e: "\<forall>q. tree (stateOf (visitFile parse p st)) q = tree st q
        \<or> (tree st q = None \<and> q = htmlFilePathOf p \<and> (Debug, Created q) \<in> set msgs)
        \<or> (tree st q \<noteq> None \<and> tree (stateOf (visitFile parse p st)) q \<noteq> None \<and> q = p
             \<and> isComponentFile p \<and> (Info, Updated p) \<in> set msgs)"
    using visitFile_effect by blast
  show ?thesis
    by (rule exI[of _ msgs]) (use m e htmlFilePathOf_not_component in metis)
qed

lemma visitAll_effect:
  "\<exists>msgs. logger (stateOf (visitAll parse fs st)) = logger st @ msgs \<and>
     (\<forall>q. tree st q \<noteq> None \<longrightarrow>
          tree (stateOf (visitAll parse fs st)) q \<noteq> None \<and>
          (tree (stateOf (visitAll parse fs st)) q \<noteq> tree st q \<longrightarrow>
             q \<in> set fs \<and> isComponentFile q \<and> (Info, Updated q) \<in> set msgs)) \<and>
     (\<forall>q. tree st q = None \<and> tree (stateOf (visitAll parse fs st)) q \<noteq> None \<longrightarrow>
          \<not> isComponentFile q)"
proof (induction fs arbitrary: st)
  case Nil
  show ?case by (rule exI[of _ "[]"]) auto
next
  case (Cons p rest)
  let ?s1 = "stateOf (visitFile parse p st)"
  obtain m1 where l1: "logger ?s1 = logger st @ m1"
    and k1: "\<forall>q. tree st q \<noteq> None \<longrightarrow> tree ?s1 q \<noteq> None \<and>
          (tree ?s1 q \<noteq> tree st q \<longrightarrow> q = p \<and> isComponentFile q \<and> (Info, Updated q) \<in> set m1)"
    and n1: "\<forall>q. tree st q = None \<and> tree ?s1 q \<noteq> None \<longrightarrow> \<not> isComponentFile q"
    using visitFile_effect_weak[of parse p st] by (elim exE conjE) (rule that; assumption)
  show ?case
  proof (cases "visitFile parse p st")
    case (Thrown f s1)
    then have s: "stateOf (visitAll parse (p # rest) st) = ?s1" by simp
    have "\<forall>q. tree st q \<noteq> None \<longrightarrow> tree ?s1 q \<noteq> None \<and>
          (tree ?s1 q \<noteq> tree st q \<longrightarrow> q \<in> set (p # rest) \<and> isComponentFile q \<and> (Info, Updated q) \<in> set m1)"
      using k1 by auto
    then show ?thesis unfolding s using l1 n1 by (intro exI[of _ m1] conjI)
  next
    case (Done s1)
    then have s: "stateOf (visitAll parse (p # rest) st) = stateOf (visitAll parse rest ?s1)" by simp
    let ?s2 = "stateOf (visitAll parse rest ?s1)"
    obtain m2 where l2: "logger ?s2 = logger ?s1 @ m2"
      and k2: "\<forall>q. tree ?s1 q \<noteq> None \<longrightarrow> tree ?s2 q \<noteq> None \<and>
          (tree ?s2 q \<noteq> tree ?s1 q \<longrightarrow> q \<in> set rest \<and> isComponentFile q \<and> (Info, Updated q) \<in> set m2)"
      and n2: "\<forall>q. tree ?s1 q = None \<and> tree ?s2 q \<noteq> None \<longrightarrow> \<not> isComponentFile q"
      using Cons.IH[of ?s1] by (elim exE conjE) (rule that; assumption)
    have a: "logger ?s2 = logger st @ (m1 @ m2)" using l1 l2 by simp
    have b: "\<forall>q. tree st q \<noteq> None \<longrightarrow> tree ?s2 q \<noteq> None \<and>
          (tree ?s2 q \<noteq> tree st q \<longrightarrow> q \<in> set (p # rest) \<and> isComponentFile q \<and> (Info, Updated q) \<in> set (m1 @ m2))"
    proof (intro allI impI)
      fix q assume q: "tree st q \<noteq> None"
      then have q1: "tree ?s1 q \<noteq> None" using k1 by blast
      then have q2: "tree ?s2 q \<noteq> None" using k2 by blast
      have "tree ?s2 q \<noteq> tree st q \<Longrightarrow> q \<in> set (p # rest) \<and> isComponentFile q \<and> (Info, Updated q) \<in> set (m1 @ m2)"
      proof -
        assume d: "tree ?s2 q \<noteq> tree st q"
        show ?thesis
        proof (cases "tree ?s1 q = tree st q")
          case True
          then have "tree ?s2 q \<noteq> tree ?s1 q" using d by simp
          then show ?thesis using k2 q1 by simp
        next
          case False
          then show ?thesis using k1 q by simp
        qed
      qed
      then show "tree ?s2 q \<noteq> None \<and>
          (tree ?s2 q \<noteq> tree st q \<longrightarrow> q \<in> set (p # rest) \<and> isComponentFile q \<and> (Info, Updated q) \<in> set (m1 @ m2))"
        using q2 by blast
    qed
    have c: "\<forall>q. tree st q = None \<and> tree ?s2 q \<noteq> None \<longrightarrow> \<not> isComponentFile q"
    proof (intro allI impI)
      fix q assume q: "tree st q = None \<and> tree ?s2 q \<noteq> None"
      show "\<not> isComponentFile q"
      proof (cases "tree ?s1 q = None")
        case True
        then show ?thesis using n2 q by blast
      next
        case False
        then show ?thesis using n1 q by blast
      qed
    qed
    show ?thesis unfolding s using a b c by (intro exI[of _ "m1 @ m2"] conjI)
  qed
qed

section \<open>C9: pre-existing files\<close>

lemma createScssFile_frame:
  assumes "createScssFile t d b content i = Inr (t1, url)" "t q \<noteq> None"
  shows "t1 q = t q"
  using assms
  by (auto simp: createScssFile_def Let_def create_def exists_def split: if_splits)

lemma migrarTemplates_stateOf:
  "stateOf (migrarTemplates parse (Inr files) st) =
     (case visitAll parse files (log Info Searching st) of
        Thrown f s1 \<Rightarrow> s1 | Done s1 \<Rightarrow> log Info Completed s1)"
  by (simp add: migrarTemplates_def split: outcome.splits)

lemma migrarTemplates_frame:
  assumes "tree st q \<noteq> None"
  shows "tree (stateOf (migrarTemplates parse enumeration st)) q \<noteq> None \<and>
         (tree (stateOf (migrarTemplates parse enumeration st)) q \<noteq> tree st q \<longrightarrow>
            isComponentFile q \<and> (\<exists>files. enumeration = Inr files \<and> q \<in> set files) \<and>
            (\<exists>msgs. logger (stateOf (migrarTemplates parse enumeration st)) = logger st @ msgs
                    \<and> (Info, Updated q) \<in> set msgs))"
proof (cases enumeration)
  case (Inl f)
  then have "stateOf (migrarTemplates parse enumeration st) = log Info Searching st"
    by (simp add: migrarTemplates_def)
  then have "tree (stateOf (migrarTemplates parse enumeration st)) = tree st" by (simp add: log_def)
  then show ?thesis using assms by simp
next
  case (Inr files)
  let ?s0 = "log Info Searching st"
  let ?s1 = "stateOf (visitAll parse files ?s0)"
  obtain msgs where l: "logger ?s1 = logger ?s0 @ msgs"
    and k: "\<forall>q. tree ?s0 q \<noteq> None \<longrightarrow> tree ?s1 q \<noteq> None \<and>
          (tree ?s1 q \<noteq> tree ?s0 q \<longrightarrow> q \<in> set files \<and> isComponentFile q \<and> (Info, Updated q) \<in> set msgs)"
    using visitAll_effect[of parse files ?s0] by (elim exE conjE) (rule that; assumption)
  have t0: "tree ?s0 = tree st" and l0: "logger ?s0 = logger st @ [(Info, Searching)]"
    by (simp_all add: log_def)
  have "\<exists>extra. tree (stateOf (migrarTemplates parse enumeration st)) = tree ?s1 \<and>
      logger (stateOf (migrarTemplates parse enumeration st)) = logger st @ ((Info, Searching) # msgs @ extra)"
  proof (cases "visitAll parse files ?s0")
    case (Done s1)
    then have "stateOf (migrarTemplates parse enumeration st) = log Info Completed s1" "?s1 = s1"
      unfolding Inr migrarTemplates_stateOf by simp_all
    then show ?thesis using l l0 by (intro exI[of _ "[(Info, Completed)]"]) (simp add: log_def)
  next
    case (Thrown f s1)
    then have "stateOf (migrarTemplates parse enumeration st) = s1" "?s1 = s1"
      unfolding Inr migrarTemplates_stateOf by simp_all
    then show ?thesis using l l0 by (intro exI[of _ "[]"]) simp
  qed
  then obtain extra where t: "tree (stateOf (migrarTemplates parse enumeration st)) = tree ?s1"
    and lg: "logger (stateOf (migrarTemplates parse enumeration st)) = logger st @ ((Info, Searching) # msgs @ extra)"
    by blast
  have a: "tree ?s1 q \<noteq> None" using k assms t0 by simp
  have b: "tree ?s1 q \<noteq> tree st q \<Longrightarrow> q \<in> set files \<and> isComponentFile q \<and> (Info, Updated q) \<in> set msgs"
    using k assms t0 by simp
  show ?thesis unfolding t
  proof (intro conjI impI)
    show "tree ?s1 q \<noteq> None" by (rule a)
  next
    assume "tree ?s1 q \<noteq> tree st q"
    then show "isComponentFile q" using b by blast
  next
    assume "tree ?s1 q \<noteq> tree st q"
    then show "\<exists>files. enumeration = Inr files \<and> q \<in> set files" using b Inr by blast
  next
    assume "tree ?s1 q \<noteq> tree st q"
    then have "(Info, Updated q) \<in> set ((Info, Searching) # msgs @ extra)" using b by simp
    then show "\<exists>msgs. logger (stateOf (migrarTemplates parse enumeration st)) = logger st @ msgs
                    \<and> (Info, Updated q) \<in> set msgs" using lg by blast
  qed
qed

text \<open>
  C9. Whatever the parser, the enumeration and the state: a file that exists before a run
  of \<open>index.ts\<close> exists after it, and if its content differs it is one of the enumerated
  component files and the run reports it as updated. \<open>createScssFile\<close> leaves every
  existing file as it is.
\<close>

theorem preexisting_files_frame:
  assumes "tree st q \<noteq> None"
  shows "tree (stateOf (migrarTemplates parse enumeration st)) q \<noteq> None \<and>
         (tree (stateOf (migrarTemplates parse enumeration st)) q \<noteq> tree st q \<longrightarrow>
            isComponentFile q \<and> (\<exists>files. enumeration = Inr files \<and> q \<in> set files) \<and>
            (\<exists>msgs. logger (stateOf (migrarTemplates parse enumeration st)) = logger st @ msgs
                    \<and> (Info, Updated q) \<in> set msgs)) \<and>
         (\<forall>d b content i t1 url.
            createScssFile (tree st) d b content i = Inr (t1, url) \<longrightarrow> t1 q = tree st q)"
proof -
  have "\<forall>d b content i t1 url.
            createScssFile (tree st) d b content i = Inr (t1, url) \<longrightarrow> t1 q = tree st q"
    using createScssFile_frame[where t="tree st" and q=q] assms by blast
  then show ?thesis using migrarTemplates_frame[OF assms, of parse enumeration] by blast
qed

theorem preexisting_files_frame_witness:
  "tree scenarioA_state [''README.md''] \<noteq> None \<and>
   tree (stateOf (migrarTemplates (\<lambda>p c. scenarioA_ast) (Inr [[''README.md''], scenarioA_path])
      scenarioA_state)) [''README.md''] = Some ''# x'' \<and>
   tree (stateOf (migrarTemplates (\<lambda>p c. scenarioA_ast) (Inr [[''README.md''], scenarioA_path])
      scenarioA_state)) scenarioA_path \<noteq> tree scenarioA_state scenarioA_path \<and>
   isComponentFile scenarioA_path"
proof -
  have h: "tree scenarioA_state [''README.md''] \<noteq> None" by code_simp
  have h2: "tree scenarioA_state scenarioA_path \<noteq> None" by code_simp
  have r: "tree (stateOf (migrarTemplates (\<lambda>p c. scenarioA_ast) (Inr [[''README.md''], scenarioA_path])
      scenarioA_state)) [''README.md''] = Some ''# x''" by code_simp
  have d: "tree (stateOf (migrarTemplates (\<lambda>p c. scenarioA_ast) (Inr [[''README.md''], scenarioA_path])
      scenarioA_state)) scenarioA_path \<noteq> tree scenarioA_state scenarioA_path" by code_simp
  have "isComponentFile scenarioA_path"
    using d preexisting_files_frame[OF h2, of "\<lambda>p c. scenarioA_ast" "Inr [[''README.md''], scenarioA_path]"]
    by blast
  then show ?thesis using h r d by (intro conjI)
qed

section \<open>C1 and C2: the last entry of a block\<close>

text \<open>The offsets of the two syntax trees against their texts.\<close>

lemma scenarioA_layout:
  "scenarioA_text ! 11 = CHR ''{'' \<and>
   take 13 (drop 13 scenarioA_text) = ''selector: 'x'' @ [CHR 0x27] \<and>
   scenarioA_text ! 26 = CHR '','' \<and>
   scenarioA_text ! 27 = CHR '' '' \<and>
   take 21 (drop 28 scenarioA_text) = ''template: '<p>hi</p>'' @ [CHR 0x27] \<and>
   drop 49 scenarioA_text = '' })'' @ [CHR 0x0A] @ ''export class XComponent {}''"
  by code_simp

lemma ideas_layout:
  "ideas_text ! 11 = CHR ''{'' \<and>
   take 21 (drop 13 ideas_text) = ''selector: 'app-ideas'' @ [CHR 0x27] \<and>
   ideas_text ! 34 = CHR '','' \<and>
   take 16 (drop 36 ideas_text) = ''standalone: true'' \<and>
   ideas_text ! 52 = CHR '','' \<and>
   take 26 (drop 54 ideas_text) = ''template: '<h1>Ideas</h1>'' @ [CHR 0x27] \<and>
   drop 80 ideas_text = '' })'' @ [CHR 0x0A] @ ''export class IdeasComponent {}''"
  by code_simp

text \<open>
  C2. Scenario A on \<open>index.ts\<close>: the markup file is created with the literal's text, but
  the rewritten block is \<open>{ selector: 'x'templateUrl: './x.component.html' }\<close>: the comma
  in front of the removed entry went with it and the inserted entry brings none.
\<close>

theorem scenarioA_result:
  "tree (stateOf (migrarTemplates (\<lambda>p c. scenarioA_ast) (Inr [scenarioA_path])
            \<lparr>tree = Map.empty(scenarioA_path \<mapsto> scenarioA_text), logger = []\<rparr>))
     scenarioA_path =
     Some (''@Component({ selector: 'x'templateUrl: './x.component.html' })'' @ [CHR 0x0A]
             @ ''export class XComponent {}'') \<and>
   tree (stateOf (migrarTemplates (\<lambda>p c. scenarioA_ast) (Inr [scenarioA_path])
            \<lparr>tree = Map.empty(scenarioA_path \<mapsto> scenarioA_text), logger = []\<rparr>))
     [''x.component.html''] = Some ''<p>hi</p>''"
  by code_simp

text \<open>
  C1. A block of three entries whose literal entry is the last one: after the splice the
  text of the file holds one comma where the three entries need two.
\<close>

theorem last_entry_separator_count:
  "length ideas_properties = 3 \<and>
   tree (stateOf (migrarTemplates (\<lambda>p c. componentSource ideas_properties) (Inr [ideas_path])
            ideas_state)) ideas_path =
     Some (''@Component({ selector: 'app-ideas', standalone: truetemplateUrl: './ideas.component.html' })''
             @ [CHR 0x0A] @ ''export class IdeasComponent {}'') \<and>
   count_list (the (tree (stateOf (migrarTemplates (\<lambda>p c. componentSource ideas_properties)
            (Inr [ideas_path]) ideas_state)) ideas_path)) (CHR '','') = 1"
  by code_simp

text \<open>
  That splice on a block whose literal entry is the first one: the block then opens
  with a comma.
\<close>

lemma prefix_splice_first_entry:
  "tree (stateOf (replaceTemplate_prefix scenarioA_path first_text
                    \<lparr>getFullStart = 12, getStart = 13, getEnd = 34\<rparr> ''./x.component.html''
                    first_state)) scenarioA_path =
     Some (''@Component({,'' @ [CHR 0x0A] @ ''  templateUrl: './x.component.html', selector: 'x' })''
             @ [CHR 0x0A] @ ''export class XComponent {}'')"
  by code_simp

section \<open>C3: the lexically last entry\<close>

lemma removalRange_last:
  assumes "1 < k"
    and "commaMatchAfter (substringFrom c (getEnd n)) = None"
    and "take (getFullStart n) c = pre @ '','' @ ws"
    and "\<forall>x\<in>set ws. isWhiteSpace x"
    and "rangeInText c n"
  shows "removalRange c k n = (length pre, getEnd n, False)"
proof -
  have m: "commaMatchBefore (substringTo c (getFullStart n)) = Some ('','' @ ws)"
    unfolding substringTo_def assms(3) using assms(4) by (rule commaMatchBefore_append)
  have "getFullStart n \<le> length c" using assms(5) by (simp add: rangeInText_def)
  then have "length (take (getFullStart n) c) = getFullStart n" by simp
  then have "getFullStart n = length pre + length ('','' @ ws)"
    unfolding assms(3) by simp
  then have e: "getFullStart n - length ('','' @ ws) = length pre" by simp
  show ?thesis
    unfolding removalRange_def Let_def using assms(1) by (simp only: if_True assms(2) m option.case e)
qed

text \<open>
  C3. A block with more than one entry, no comma (after optional white space) behind the
  end of the migrated entry, and in front of its full start a comma followed by white
  space only: the removal starts at that comma, the inserted text is the reference entry
  with no comma behind it, and in the rewritten file the new entry is followed by what
  followed the old one, which does not begin with a separator.
\<close>

theorem last_entry_retracts_removal:
  assumes "1 < k"
    and "commaMatchAfter (substringFrom c (getEnd n)) = None"
    and "take (getFullStart n) c = pre @ '','' @ ws"
    and "\<forall>x\<in>set ws. isWhiteSpace x"
    and "rangeInText c n"
    and "tree st p = Some c"
  shows "removalRange c k n = (getFullStart n - length ('','' @ ws), getEnd n, False) \<and>
         getFullStart n - length ('','' @ ws) = length pre \<and>
         replaceTemplate p c k n rel st =
           Done (log Info (Updated p)
                  (st\<lparr>tree := (tree st)(p \<mapsto>
                         pre @ newTemplateUrlProperty rel @ drop (getEnd n) c)\<rparr>)) \<and>
         last (newTemplateUrlProperty rel) \<noteq> CHR '','' \<and>
         commaMatchAfter (drop (getEnd n) c) = None"
proof -
  have r: "removalRange c k n = (length pre, getEnd n, False)"
    using assms(1-5) by (rule removalRange_last)
  have "getFullStart n \<le> length c" using assms(5) by (simp add: rangeInText_def)
  then have "length (take (getFullStart n) c) = getFullStart n" by simp
  then have "getFullStart n = length pre + length ('','' @ ws)"
    unfolding assms(3) by simp
  then have e: "getFullStart n - length ('','' @ ws) = length pre" by simp
  have "take (length pre) (take (getFullStart n) c) = pre" unfolding assms(3) by simp
  moreover have "length pre \<le> getFullStart n" using e by linarith
  ultimately have t: "take (length pre) c = pre" by (simp add: min_def)
  have d: "replaceTemplate p c k n rel st =
           Done (log Info (Updated p)
                  (st\<lparr>tree := (tree st)(p \<mapsto>
                         take (length pre) c @ (newTemplateUrlProperty rel @ (if False then '','' else []))
                           @ drop (getEnd n) c)\<rparr>))"
    using assms(6,5) r by (rule replaceTemplate_Done)
  have l: "last (newTemplateUrlProperty rel) \<noteq> CHR '',''"
    by (simp add: newTemplateUrlProperty_def)
  show ?thesis
    using r e d l assms(2) by (simp add: t substringFrom_def)
qed

theorem last_entry_retracts_removal_witness:
  "replaceTemplate scenarioA_path scenarioA_text 2
      \<lparr>getFullStart = 27, getStart = 28, getEnd = 49\<rparr> ''./x.component.html''
      \<lparr>tree = Map.empty(scenarioA_path \<mapsto> scenarioA_text), logger = []\<rparr> =
    Done (log Info (Updated scenarioA_path)
           (\<lparr>tree = Map.empty(scenarioA_path \<mapsto> scenarioA_text), logger = []\<rparr>
              \<lparr>tree := (Map.empty(scenarioA_path \<mapsto> scenarioA_text))(scenarioA_path \<mapsto>
                 ''@Component({ selector: 'x'' @ [CHR 0x27]
                   @ newTemplateUrlProperty ''./x.component.html''
                   @ drop 49 scenarioA_text)\<rparr>)) \<and>
   removalRange scenarioA_text 2 \<lparr>getFullStart = 27, getStart = 28, getEnd = 49\<rparr> = (26, 49, False)"
proof -
  let ?n = "\<lparr>getFullStart = 27, getStart = 28, getEnd = 49\<rparr>"
  have h1: "(1::nat) < 2" by simp
  have h2: "commaMatchAfter (substringFrom scenarioA_text (getEnd ?n)) = None" by code_simp
  have h3: "take (getFullStart ?n) scenarioA_text = (''@Component({ selector: 'x'' @ [CHR 0x27]) @ '','' @ []"
    by code_simp
  have h4: "\<forall>x\<in>set []. isWhiteSpace x" by simp
  have h5: "rangeInText scenarioA_text ?n" by code_simp
  have h6: "tree \<lparr>tree = Map.empty(scenarioA_path \<mapsto> scenarioA_text), logger = []\<rparr> scenarioA_path
      = Some scenarioA_text" by simp
  show ?thesis
    using last_entry_retracts_removal[OF h1 h2 h3 h4 h5 h6, of "''./x.component.html''"]
    by simp
qed

section \<open>C10: a string-literal key\<close>

lemma visitFile_rewrites:
  assumes "isComponentFile p" "tree st p = Some c"
    and "findComponentDecorator (parse p c) = Some props"
    and "\<not> list_ex (isNamed ''templateUrl'') props"
    and "getDecoratorPropertyValue props ''template'' = Some tc"
    and "getDecoratorPropertyNode props ''template'' = Some n"
    and "rangeInText c n"
  shows "visitFile parse p st =
           Done (log Info (Updated p)
                  ((afterHtmlFile p tc st)
                     \<lparr>tree := (tree (afterHtmlFile p tc st))
                                (p \<mapsto> rewrittenText p c (removalRange c (length props) n))\<rparr>))"
proof -
  have f: "templateFires parse p c" using assms(3,4,5) by (simp add: templateFires_def)
  obtain props' tc' n' where "findComponentDecorator (parse p c) = Some props'"
          "getDecoratorPropertyValue props' ''template'' = Some tc'"
          "getDecoratorPropertyNode props' ''template'' = Some n'"
      and v: "visitFile parse p st =
              replaceTemplate p c (length props') n' (''./'' @ basename p ''.ts'' @ ''.html'')
                (if tree st (htmlFilePathOf p) \<noteq> None
                 then log Warn (HtmlExists (htmlFilePathOf p)) (log Info (Processing p) st)
                 else log Debug (Created (htmlFilePathOf p))
                        ((log Info (Processing p) st)\<lparr>tree := (tree st)(htmlFilePathOf p \<mapsto> tc')\<rparr>))"
    using visitFile_fires[OF assms(1,2) f] by (elim exE conjE) (rule that; assumption)
  then have eq: "props' = props" "tc' = tc" "n' = n" using assms(3,5,6) by simp_all
  have v': "visitFile parse p st =
      replaceTemplate p c (length props) n (''./'' @ basename p ''.ts'' @ ''.html'') (afterHtmlFile p tc st)"
    using v unfolding eq afterHtmlFile_def by simp
  have hp: "htmlFilePathOf p \<noteq> p" using assms(1) htmlFilePathOf_not_component by metis
  have t: "tree (afterHtmlFile p tc st) p = Some c"
    using assms(2) hp by (simp add: afterHtmlFile_def log_def)
  obtain rs re comma where rr: "removalRange c (length props) n = (rs, re, comma)"
    by (cases "removalRange c (length props) n") auto
  show ?thesis
    unfolding v' replaceTemplate_Done[OF t assms(7) rr] rr rewrittenText_def by simp
qed

lemma isNamed_iff:
  "list_ex (isNamed name) props \<longleftrightarrow> (\<exists>e r. PropertyAssignment (Identifier name) e r \<in> set props)"
proof -
  have "\<And>x. isNamed name x \<longleftrightarrow> (\<exists>e r. x = PropertyAssignment (Identifier name) e r)"
    by (auto simp: isNamed_def split: objectLiteralElement.splits propertyName.splits)
  then show ?thesis by (auto simp: list_ex_iff)
qed

text \<open>
  C10. The guard holds exactly when some entry is a property assignment whose key is the
  identifier \<open>templateUrl\<close>. A block that has the key only as a string literal, and a
  literal \<open>template\<close> entry, is rewritten: the reference entry is inserted once more.
\<close>

theorem string_key_not_detected:
  assumes "isComponentFile p" "tree st p = Some c"
    and "findComponentDecorator (parse p c) = Some props"
    and "PropertyAssignment (StringLiteralName ''templateUrl'') e0 r0 \<in> set props"
    and "\<forall>x\<in>set props. \<forall>e r. x \<noteq> PropertyAssignment (Identifier ''templateUrl'') e r"
    and "getDecoratorPropertyValue props ''template'' = Some tc"
    and "getDecoratorPropertyNode props ''template'' = Some n"
    and "rangeInText c n"
  shows "(list_ex (isNamed ''templateUrl'') props \<longleftrightarrow>
            (\<exists>e r. PropertyAssignment (Identifier ''templateUrl'') e r \<in> set props)) \<and>
         \<not> list_ex (isNamed ''templateUrl'') props \<and>
         (\<exists>st1. visitFile parse p st = Done st1 \<and>
            tree st1 p = Some (rewrittenText p c (removalRange c (length props) n)))"
proof -
  have g: "\<not> list_ex (isNamed ''templateUrl'') props"
    using assms(5) unfolding isNamed_iff by blast
  have "visitFile parse p st =
           Done (log Info (Updated p)
                  ((afterHtmlFile p tc st)
                     \<lparr>tree := (tree (afterHtmlFile p tc st))
                                (p \<mapsto> rewrittenText p c (removalRange c (length props) n))\<rparr>))"
    using assms(1,2,3) g assms(6,7,8) by (rule visitFile_rewrites)
  then have "\<exists>st1. visitFile parse p st = Done st1 \<and>
            tree st1 p = Some (rewrittenText p c (removalRange c (length props) n))"
    by (simp add: log_def)
  then show ?thesis using g isNamed_iff by blast
qed

theorem string_key_not_detected_witness:
  "\<exists>st1. visitFile (\<lambda>p c. componentSource stringKey_properties) scenarioA_path
            \<lparr>tree = Map.empty(scenarioA_path \<mapsto> stringKey_text), logger = []\<rparr> = Done st1 \<and>
     tree st1 scenarioA_path =
       Some (''@Component({templateUrl: './x.component.html', '' @ [CHR 0x22] @ ''templateUrl''
               @ [CHR 0x22] @ '': './a.html' })'' @ [CHR 0x0A] @ ''export class XComponent {}'')"
proof -
  let ?parse = "\<lambda>p c. componentSource stringKey_properties"
  let ?st = "\<lparr>tree = Map.empty(scenarioA_path \<mapsto> stringKey_text), logger = []\<rparr>"
  let ?n = "\<lparr>getFullStart = 12, getStart = 13, getEnd = 34\<rparr>"
  have h1: "isComponentFile scenarioA_path" by code_simp
  have h2: "tree ?st scenarioA_path = Some stringKey_text" by simp
  have h3: "findComponentDecorator (?parse scenarioA_path stringKey_text) = Some stringKey_properties"
    by code_simp
  have h4: "PropertyAssignment (StringLiteralName ''templateUrl'') (StringLiteral ''./a.html'')
        \<lparr>getFullStart = 35, getStart = 36, getEnd = 61\<rparr> \<in> set stringKey_properties"
    by (simp add: stringKey_properties_def)
  have h5: "\<forall>x\<in>set stringKey_properties. \<forall>e r. x \<noteq> PropertyAssignment (Identifier ''templateUrl'') e r"
    by (simp add: stringKey_properties_def)
  have h6: "getDecoratorPropertyValue stringKey_properties ''template'' = Some ''<p>hi</p>''"
    by code_simp
  have h7: "getDecoratorPropertyNode stringKey_properties ''template'' = Some ?n" by code_simp
  have h8: "rangeInText stringKey_text ?n" by code_simp
  have r: "rewrittenText scenarioA_path stringKey_text
             (removalRange stringKey_text (length stringKey_properties) ?n) =
       ''@Component({templateUrl: './x.component.html', '' @ [CHR 0x22] @ ''templateUrl''
               @ [CHR 0x22] @ '': './a.html' })'' @ [CHR 0x0A] @ ''export class XComponent {}''"
    by code_simp
  show ?thesis
    using string_key_not_detected[OF h1 h2 h3 h4 h5 h6 h7 h8] unfolding r by blast
qed

section \<open>C6: a target that exists\<close>

lemma createScssFile_existing:
  assumes "tree st (normalizePath (join d (scssFileNameOf b i))) \<noteq> None"
  shows "createScssFile (tree st) d b content i = Inr (tree st, ''./'' @ scssFileNameOf b i)"
proof (cases "i = 0")
  case True
  then show ?thesis using assms by (auto simp: createScssFile_def scssFileNameOf_def Let_def exists_def)
next
  case False
  then show ?thesis using assms by (auto simp: createScssFile_def scssFileNameOf_def Let_def exists_def)
qed

text \<open>
  A unit of \<open>index.ts\<close> that passes the guards and whose markup file exists: the visitor
  warns, leaves that file as it is and rewrites the entry of the unit to the reference
  (\<open>rewrittenText\<close> names the file by its last segment); no run of the rule, whatever it
  enumerates, changes the markup file. \<open>createScssFile\<close> on an existing path returns the
  tree as it got it, and the relative path.
\<close>

lemma existing_target_kept:
  assumes "isComponentFile p" "tree st p = Some c"
    and "findComponentDecorator (parse p c) = Some props"
    and "\<not> list_ex (isNamed ''templateUrl'') props"
    and "getDecoratorPropertyValue props ''template'' = Some tc"
    and "getDecoratorPropertyNode props ''template'' = Some n"
    and "rangeInText c n"
    and "tree st (htmlFilePathOf p) = Some old"
  shows "(\<exists>st1. visitFile parse p st = Done st1 \<and>
            tree st1 (htmlFilePathOf p) = Some old \<and>
            tree st1 p = Some (rewrittenText p c (removalRange c (length props) n)) \<and>
            logger st1 = logger st @ [(Info, Processing p), (Warn, HtmlExists (htmlFilePathOf p)),
                                      (Info, Updated p)]) \<and>
         tree (stateOf (migrarTemplates parse enumeration st)) (htmlFilePathOf p) = Some old \<and>
         (\<forall>d b content i. tree st (normalizePath (join d (scssFileNameOf b i))) \<noteq> None \<longrightarrow>
            createScssFile (tree st) d b content i = Inr (tree st, ''./'' @ scssFileNameOf b i))"
proof -
  have v: "visitFile parse p st =
           Done (log Info (Updated p)
                  ((afterHtmlFile p tc st)
                     \<lparr>tree := (tree (afterHtmlFile p tc st))
                                (p \<mapsto> rewrittenText p c (removalRange c (length props) n))\<rparr>))"
    using assms(1-7) by (rule visitFile_rewrites)
  have hp: "htmlFilePathOf p \<noteq> p" using assms(1) htmlFilePathOf_not_component by metis
  have a: "afterHtmlFile p tc st = log Warn (HtmlExists (htmlFilePathOf p)) (log Info (Processing p) st)"
    using assms(8) by (simp add: afterHtmlFile_def)
  have 1: "\<exists>st1. visitFile parse p st = Done st1 \<and>
            tree st1 (htmlFilePathOf p) = Some old \<and>
            tree st1 p = Some (rewrittenText p c (removalRange c (length props) n)) \<and>
            logger st1 = logger st @ [(Info, Processing p), (Warn, HtmlExists (htmlFilePathOf p)),
                                      (Info, Updated p)]"
    unfolding v a using assms(8) hp by (simp add: log_def)
  have e: "tree st (htmlFilePathOf p) \<noteq> None" using assms(8) by simp
  have 2: "tree (stateOf (migrarTemplates parse enumeration st)) (htmlFilePathOf p) = Some old"
    using migrarTemplates_frame[OF e, of parse enumeration] htmlFilePathOf_not_component[of p] assms(8)
    by metis
  show ?thesis using 1 2 createScssFile_existing by blast
qed

lemma existing_target_kept_scenarioA:
  "tree (stateOf (migrarTemplates (\<lambda>p c. scenarioA_ast) (Inr [scenarioA_path]) scenarioA_existing))
     [''x.component.html''] = Some ''<b>old</b>'' \<and>
   (\<exists>st1. visitFile (\<lambda>p c. scenarioA_ast) scenarioA_path scenarioA_existing = Done st1 \<and>
      tree st1 [''x.component.html''] = Some ''<b>old</b>'' \<and>
      tree st1 scenarioA_path =
        Some (''@Component({ selector: 'x'templateUrl: './x.component.html' })'' @ [CHR 0x0A]
             @ ''export class XComponent {}''))"
proof -
  let ?parse = "\<lambda>p c. scenarioA_ast"
  let ?n = "\<lparr>getFullStart = 27, getStart = 28, getEnd = 49\<rparr>"
  let ?props = "[PropertyAssignment (Identifier ''selector'') (StringLiteral ''x'')
          \<lparr>getFullStart = 12, getStart = 13, getEnd = 26\<rparr>,
        PropertyAssignment (Identifier ''template'') (StringLiteral ''<p>hi</p>'')
          \<lparr>getFullStart = 27, getStart = 28, getEnd = 49\<rparr>]"
  have h1: "isComponentFile scenarioA_path" by code_simp
  have h2: "tree scenarioA_existing scenarioA_path = Some scenarioA_text" by code_simp
  have h3: "findComponentDecorator (?parse scenarioA_path scenarioA_text) = Some ?props" by code_simp
  have h4: "\<not> list_ex (isNamed ''templateUrl'') ?props" by code_simp
  have h5: "getDecoratorPropertyValue ?props ''template'' = Some ''<p>hi</p>''" by code_simp
  have h6: "getDecoratorPropertyNode ?props ''template'' = Some ?n" by code_simp
  have h7: "rangeInText scenarioA_text ?n" by code_simp
  have h8: "tree scenarioA_existing (htmlFilePathOf scenarioA_path) = Some ''<b>old</b>''" by code_simp
  have p: "htmlFilePathOf scenarioA_path = [''x.component.html'']" by code_simp
  have r: "rewrittenText scenarioA_path scenarioA_text (removalRange scenarioA_text (length ?props) ?n) =
       ''@Component({ selector: 'x'templateUrl: './x.component.html' })'' @ [CHR 0x0A]
             @ ''export class XComponent {}''" by code_simp
  show ?thesis
    using existing_target_kept[OF h1 h2 h3 h4 h5 h6 h7 h8, of "Inr [scenarioA_path]"]
    unfolding r p by blast
qed

text \<open>
  The variant with styles on a unit with a \<open>styles\<close> entry alone, its style sheet being
  there: the sheet stays and the entry is rewritten.
\<close>

lemma stylesOnly_existing_sheet:
  "observe (processFile_styles emptyContent (\<lambda>p c. componentSource stylesOnly_properties) srcX_path
              \<lparr>tree = Map.empty(srcX_path \<mapsto> stylesOnly_text,
                                 [''src'', ''x.component.scss''] \<mapsto> ''.old {}''),
               logger = []\<rparr>)
      srcX_path [''src'', ''x.component.scss''] =
     (None,
      Some (''@Component({ selector: 'x','' @ [CHR 0x0A] @ ''  styleUrls: ['./x.component.scss'] })''
              @ [CHR 0x0A] @ ''export class XComponent {}''),
      Some ''.old {}'',
      [])"
  by code_simp

text \<open>
  C6. The variant with styles on the sample component of the repository, the style sheet
  \<open>/src/app/ideas.component.scss\<close> being there before the run. The run ends and the sheet
  is as it was, but the entry \<open>styles\<close> of the unit is not rewritten to refer to it: the
  markup block has made the file 43 characters shorter, the styles block removes by the
  offsets of the text read at the start, the recorder throws, and the unit keeps its
  \<open>styles\<close> entry with the literal (from offset 220 on, the file is the original from
  offset 263 on, where \<open>styles: [\<close> begins).
\<close>

theorem sample_sheet_exists_entry_stays:
  "observe (migrarTemplates_styles emptyContent sample_parse (Inr [sample_path]) sample_existing)
      sample_path [''src'', ''app'', ''ideas.component.scss''] =
     (None, Some sample_half_migrated, Some ''.old {}'',
      [(Info, Searching), (Error, ErrorProcessingFile sample_path),
       (Error, FaultMessage CharacterOutOfBounds), (Error, FaultStack CharacterOutOfBounds),
       (Info, Completed)]) \<and>
   tree sample_existing [''src'', ''app'', ''ideas.component.scss''] = Some ''.old {}'' \<and>
   tree sample_existing sample_path = Some sample_text \<and>
   take 9 (drop 263 sample_text) = ''styles: ['' \<and>
   drop 220 sample_half_migrated = drop 263 sample_text"
  by code_simp

section \<open>C4: a second run\<close>

lemma visitAll_skips:
  assumes "\<forall>p\<in>set fs. \<not> (isComponentFile p \<and> (\<exists>c. tree st p = Some c \<and> templateFires parse p c))"
  shows "\<exists>msgs. visitAll parse fs st = Done (st\<lparr>logger := logger st @ msgs\<rparr>)
           \<and> (\<forall>m\<in>set msgs. \<not> isEdit (snd m))"
  using assms
proof (induction fs arbitrary: st)
  case Nil
  show ?case by (rule exI[of _ "[]"]) simp
next
  case (Cons p rest)
  have "\<not> (isComponentFile p \<and> (\<exists>c. tree st p = Some c \<and> templateFires parse p c))"
    using Cons.prems by simp
  then obtain m1 where v: "visitFile parse p st = Done (st\<lparr>logger := logger st @ m1\<rparr>)"
    and e1: "\<forall>m\<in>set m1. \<not> isEdit (snd m)"
    using visitFile_skip[of p st parse] by blast
  let ?s1 = "st\<lparr>logger := logger st @ m1\<rparr>"
  have "\<forall>p\<in>set rest. \<not> (isComponentFile p \<and> (\<exists>c. tree ?s1 p = Some c \<and> templateFires parse p c))"
    using Cons.prems by simp
  then obtain m2 where r: "visitAll parse rest ?s1 = Done (?s1\<lparr>logger := logger ?s1 @ m2\<rparr>)"
    and e2: "\<forall>m\<in>set m2. \<not> isEdit (snd m)"
    using Cons.IH[of ?s1] by blast
  have "visitAll parse (p # rest) st = Done (st\<lparr>logger := logger st @ (m1 @ m2)\<rparr>)"
    using v r by simp
  moreover have "\<forall>m\<in>set (m1 @ m2). \<not> isEdit (snd m)" using e1 e2 by auto
  ultimately show ?case by blast
qed

lemma visitFile_Done_updated:
  assumes "isComponentFile p" "tree st p = Some c" "templateFires parse p c"
    and "visitFile parse p st = Done st1"
  shows "\<exists>msgs. logger st1 = logger st @ msgs \<and> (Info, Updated p) \<in> set msgs"
proof -
  obtain props tc n where "findComponentDecorator (parse p c) = Some props"
          "\<not> list_ex (isNamed ''templateUrl'') props"
          "getDecoratorPropertyValue props ''template'' = Some tc"
          "getDecoratorPropertyNode props ''template'' = Some n"
      and v: "visitFile parse p st =
              replaceTemplate p c (length props) n (''./'' @ basename p ''.ts'' @ ''.html'')
                (if tree st (htmlFilePathOf p) \<noteq> None
                 then log Warn (HtmlExists (htmlFilePathOf p)) (log Info (Processing p) st)
                 else log Debug (Created (htmlFilePathOf p))
                        ((log Info (Processing p) st)\<lparr>tree := (tree st)(htmlFilePathOf p \<mapsto> tc)\<rparr>))"
    using visitFile_fires[OF assms(1-3)] by (elim exE conjE) (rule that; assumption)
  define s0 where "s0 = (if tree st (htmlFilePathOf p) \<noteq> None
                 then log Warn (HtmlExists (htmlFilePathOf p)) (log Info (Processing p) st)
                 else log Debug (Created (htmlFilePathOf p))
                        ((log Info (Processing p) st)\<lparr>tree := (tree st)(htmlFilePathOf p \<mapsto> tc)\<rparr>))"
  have l0: "\<exists>m. logger s0 = logger st @ m" by (simp add: s0_def log_def)
  have v': "replaceTemplate p c (length props) n (''./'' @ basename p ''.ts'' @ ''.html'') s0 = Done st1"
    using v assms(4) by (simp only: s0_def)
  then obtain x where "st1 = log Info (Updated p) (s0\<lparr>tree := (tree s0)(p \<mapsto> x)\<rparr>)"
    using replaceTemplate_frame[of p c "length props" n "''./'' @ basename p ''.ts'' @ ''.html''" s0]
    by auto
  then have "logger st1 = logger s0 @ [(Info, Updated p)]" by (simp add: log_def)
  then show ?thesis using l0 by auto
qed

lemma visitAll_first:
  assumes "visitAll parse fs st = Done st1" "p \<in> set fs"
  shows "(\<exists>msgs. logger st1 = logger st @ msgs \<and> (Info, Updated p) \<in> set msgs)
         \<or> \<not> (isComponentFile p \<and> (\<exists>c. tree st1 p = Some c \<and> templateFires parse p c))"
  using assms
proof (induction fs arbitrary: st)
  case Nil
  then show ?case by simp
next
  case (Cons q rest)
  obtain s1 where v: "visitFile parse q st = Done s1" and r: "visitAll parse rest s1 = Done st1"
    using Cons.prems(1) by (auto split: outcome.splits)
  obtain m1 where l1: "logger s1 = logger st @ m1"
    using visitFile_effect[of parse q st] v by auto
  have st1: "stateOf (visitAll parse rest s1) = st1" using r by simp
  obtain m2 where l2: "logger st1 = logger s1 @ m2"
    and k2: "\<forall>x. tree s1 x \<noteq> None \<longrightarrow> tree st1 x \<noteq> None \<and>
          (tree st1 x \<noteq> tree s1 x \<longrightarrow> x \<in> set rest \<and> isComponentFile x \<and> (Info, Updated x) \<in> set m2)"
    and n2: "\<forall>x. tree s1 x = None \<and> tree st1 x \<noteq> None \<longrightarrow> \<not> isComponentFile x"
    using visitAll_effect[of parse rest s1] unfolding st1 by (elim exE conjE) (rule that; assumption)
  have l: "logger st1 = logger st @ (m1 @ m2)" using l1 l2 by simp
  show ?case
  proof (cases "p \<in> set rest")
    case True
    from Cons.IH[OF r True] show ?thesis
    proof
      assume "\<exists>msgs. logger st1 = logger s1 @ msgs \<and> (Info, Updated p) \<in> set msgs"
      then obtain msgs where "logger st1 = logger s1 @ msgs" "(Info, Updated p) \<in> set msgs" by blast
      then have "logger st1 = logger st @ (m1 @ msgs) \<and> (Info, Updated p) \<in> set (m1 @ msgs)"
        using l1 by simp
      then show ?thesis by blast
    next
      assume "\<not> (isComponentFile p \<and> (\<exists>c. tree st1 p = Some c \<and> templateFires parse p c))"
      then show ?thesis by blast
    qed
  next
    case False
    then have pq: "p = q" using Cons.prems(2) by simp
    show ?thesis
    proof (cases "isComponentFile p \<and> (\<exists>c. tree st p = Some c \<and> templateFires parse p c)")
      case True
      then obtain c where "isComponentFile p" "tree st p = Some c" "templateFires parse p c" by blast
      then obtain msgs where "logger s1 = logger st @ msgs" "(Info, Updated p) \<in> set msgs"
        using visitFile_Done_updated[of p st c parse s1] v pq by blast
      then have "logger st1 = logger st @ (msgs @ m2) \<and> (Info, Updated p) \<in> set (msgs @ m2)"
        using l2 by simp
      then show ?thesis by blast
    next
      case nf: False
      then obtain ms where "visitFile parse p st = Done (st\<lparr>logger := logger st @ ms\<rparr>)"
        using visitFile_skip[of p st parse] by blast
      then have t1: "tree s1 = tree st" using v pq by auto
      show ?thesis
      proof (cases "tree st1 p = tree st p")
        case True
        then show ?thesis using nf by simp
      next
        case ch: False
        show ?thesis
        proof (cases "tree st p")
          case None
          then have "tree st1 p \<noteq> None" using ch by simp
          then have "\<not> isComponentFile p" using n2 None t1 by simp
          then show ?thesis by simp
        next
          case (Some c)
          then have "(Info, Updated p) \<in> set m2" using k2 ch t1 by simp
          then have "logger st1 = logger st @ (m1 @ m2) \<and> (Info, Updated p) \<in> set (m1 @ m2)"
            using l by simp
          then show ?thesis by blast
        qed
      qed
    qed
  qed
qed

lemma templateFires_not_reference:
  assumes "findComponentDecorator (parse p c) = Some props" "list_ex (isNamed ''templateUrl'') props"
  shows "\<not> templateFires parse p c"
  using assms by (simp add: templateFires_def)

text \<open>
  A first run of \<open>index.ts\<close> from a fresh log that ends, over an enumeration that misses
  no component file of the tree. If the parser shows the reference entry in every unit
  the first run reports as updated (the decorator is found and has an identifier-keyed
  \<open>templateUrl\<close>), then a second run, over any enumeration, ends with the tree as the
  first run left it and reports no file as processed, created or updated.
\<close>

lemma second_run_idle:
  assumes "logger st = []"
    and "migrarTemplates parse (Inr files1) st = Done st1"
    and "\<forall>p. isComponentFile p \<and> tree st p \<noteq> None \<longrightarrow> p \<in> set files1"
    and "\<forall>p. (Info, Updated p) \<in> set (logger st1) \<longrightarrow>
           (\<exists>c props. tree st1 p = Some c \<and> findComponentDecorator (parse p c) = Some props
                      \<and> list_ex (isNamed ''templateUrl'') props)"
  shows "\<exists>msgs. migrarTemplates parse (Inr files2) (st1\<lparr>logger := []\<rparr>) =
                  Done (st1\<lparr>logger := msgs\<rparr>) \<and>
                (\<forall>m\<in>set msgs. \<not> isEdit (snd m))"
proof -
  let ?s0 = "log Info Searching st"
  obtain s1 where v1: "visitAll parse files1 ?s0 = Done s1" and s1: "st1 = log Info Completed s1"
    using assms(2) by (auto simp: migrarTemplates_def split: outcome.splits)
  have t1: "tree st1 = tree s1" and lg1: "logger st1 = logger s1 @ [(Info, Completed)]"
    using s1 by (simp_all add: log_def)
  have e: "stateOf (visitAll parse files1 ?s0) = s1" using v1 by simp
  have created: "\<forall>x. tree ?s0 x = None \<and> tree s1 x \<noteq> None \<longrightarrow> \<not> isComponentFile x"
    using visitAll_effect[of parse files1 ?s0] unfolding e by blast
  have idle: "\<forall>p\<in>set files2.
      \<not> (isComponentFile p \<and> (\<exists>c. tree (log Info Searching (st1\<lparr>logger := []\<rparr>)) p = Some c
            \<and> templateFires parse p c))"
  proof
    fix p assume "p \<in> set files2"
    show "\<not> (isComponentFile p \<and> (\<exists>c. tree (log Info Searching (st1\<lparr>logger := []\<rparr>)) p = Some c
            \<and> templateFires parse p c))"
    proof
      assume a: "isComponentFile p \<and> (\<exists>c. tree (log Info Searching (st1\<lparr>logger := []\<rparr>)) p = Some c
            \<and> templateFires parse p c)"
      then obtain c where cf: "isComponentFile p" and c: "tree s1 p = Some c"
        and f: "templateFires parse p c"
        using t1 by (auto simp: log_def)
      have "tree st p \<noteq> None"
      proof
        assume "tree st p = None"
        then have "tree ?s0 p = None \<and> tree s1 p \<noteq> None" using c by (simp add: log_def)
        then show False using created cf by blast
      qed
      then have "p \<in> set files1" using assms(3) cf by blast
      from visitAll_first[OF v1 this] show False
      proof
        assume "\<exists>msgs. logger s1 = logger ?s0 @ msgs \<and> (Info, Updated p) \<in> set msgs"
        then have "(Info, Updated p) \<in> set (logger st1)" using lg1 by auto
        then obtain c' props where "tree st1 p = Some c'"
          "findComponentDecorator (parse p c') = Some props" "list_ex (isNamed ''templateUrl'') props"
          using assms(4) by blast
        then have "\<not> templateFires parse p c" using templateFires_not_reference c t1 by fastforce
        then show False using f by simp
      next
        assume "\<not> (isComponentFile p \<and> (\<exists>c. tree s1 p = Some c \<and> templateFires parse p c))"
        then show False using cf c f by blast
      qed
    qed
  qed
  let ?t0 = "log Info Searching (st1\<lparr>logger := []\<rparr>)"
  obtain msgs where v2: "visitAll parse files2 ?t0 = Done (?t0\<lparr>logger := logger ?t0 @ msgs\<rparr>)"
    and ne: "\<forall>m\<in>set msgs. \<not> isEdit (snd m)"
    using visitAll_skips[OF idle] by blast
  have "migrarTemplates parse (Inr files2) (st1\<lparr>logger := []\<rparr>) =
      Done (st1\<lparr>logger := (Info, Searching) # msgs @ [(Info, Completed)]\<rparr>)"
    unfolding migrarTemplates_def sum.case v2 outcome.case by (simp add: log_def)
  moreover have "\<forall>m\<in>set ((Info, Searching) # msgs @ [(Info, Completed)]). \<not> isEdit (snd m)"
    using ne by simp
  ultimately show ?thesis by blast
qed

lemma outcome_Done_stateOf:
  "(case r of Done s \<Rightarrow> True | Thrown f s \<Rightarrow> False) \<Longrightarrow> r = Done (stateOf r)"
  by (cases r) simp_all

lemma second_run_idle_first_entry:
  "\<exists>msgs. migrarTemplates first_parse (Inr [[''x.component.html''], scenarioA_path])
            ((stateOf (migrarTemplates first_parse (Inr [scenarioA_path]) first_state))\<lparr>logger := []\<rparr>) =
           Done ((stateOf (migrarTemplates first_parse (Inr [scenarioA_path]) first_state))\<lparr>logger := msgs\<rparr>)"
proof -
  let ?r = "migrarTemplates first_parse (Inr [scenarioA_path]) first_state"
  have h1: "logger first_state = []" by (simp add: first_state_def)
  have "case ?r of Done s \<Rightarrow> True | Thrown f s \<Rightarrow> False" by code_simp
  then have h2: "?r = Done (stateOf ?r)" by (rule outcome_Done_stateOf)
  have h3: "\<forall>p. isComponentFile p \<and> tree first_state p \<noteq> None \<longrightarrow> p \<in> set [scenarioA_path]"
    by (simp add: first_state_def)
  have lg: "logger (stateOf ?r) =
      [(Info, Searching), (Info, Processing scenarioA_path), (Debug, Created [''x.component.html'']),
       (Info, Updated scenarioA_path), (Info, Completed)]" by code_simp
  have tr: "tree (stateOf ?r) scenarioA_path =
      Some (''@Component({templateUrl: './x.component.html', selector: 'x' })'' @ [CHR 0x0A]
              @ ''export class XComponent {}'')" by code_simp
  have pr: "findComponentDecorator (first_parse scenarioA_path
        (''@Component({templateUrl: './x.component.html', selector: 'x' })'' @ [CHR 0x0A]
              @ ''export class XComponent {}'')) =
      Some [PropertyAssignment (Identifier ''templateUrl'') (StringLiteral ''./x.component.html'')
                \<lparr>getFullStart = 12, getStart = 12, getEnd = 45\<rparr>,
              PropertyAssignment (Identifier ''selector'') (StringLiteral ''x'')
                \<lparr>getFullStart = 46, getStart = 47, getEnd = 60\<rparr>]" by code_simp
  have ex: "list_ex (isNamed ''templateUrl'')
      [PropertyAssignment (Identifier ''templateUrl'') (StringLiteral ''./x.component.html'')
                \<lparr>getFullStart = 12, getStart = 12, getEnd = 45\<rparr>,
              PropertyAssignment (Identifier ''selector'') (StringLiteral ''x'')
                \<lparr>getFullStart = 46, getStart = 47, getEnd = 60\<rparr>]" by code_simp
  have h4: "\<forall>p. (Info, Updated p) \<in> set (logger (stateOf ?r)) \<longrightarrow>
           (\<exists>c props. tree (stateOf ?r) p = Some c \<and> findComponentDecorator (first_parse p c) = Some props
                      \<and> list_ex (isNamed ''templateUrl'') props)"
    unfolding lg using tr pr ex by auto
  show ?thesis
    using second_run_idle[OF h1 h2 h3 h4, of "[[''x.component.html''], scenarioA_path]"] by blast
qed

lemma fused_layout:
  "fused_text ! 11 = CHR ''{'' \<and>
   take 21 (drop 13 fused_text) = ''selector: 'app-ideas'' @ [CHR 0x27] \<and>
   fused_text ! 34 = CHR '','' \<and>
   take 27 (drop 36 fused_text) = ''standalone: truetemplateUrl'' \<and>
   fused_text ! 63 = CHR '':'' \<and>
   take 24 (drop 65 fused_text) = [CHR 0x27] @ ''./ideas.component.html'' @ [CHR 0x27] \<and>
   drop 89 fused_text = '' })'' @ [CHR 0x0A] @ ''export class IdeasComponent {}''"
  by code_simp


section \<open>Both variants: the guards\<close>

lemma getDecoratorPropertyValue_iff:
  "getDecoratorPropertyValue props name \<noteq> None \<longleftrightarrow> entryWith literalValue name props"
  by (auto simp: getDecoratorPropertyValue_def entryWith_def
           split: option.splits objectLiteralElement.splits expression.splits)

lemma getDecoratorPropertyValue_styles_iff:
  "getDecoratorPropertyValue_styles props name \<noteq> None \<longleftrightarrow> entryWith literalOrList name props"
  by (auto simp: getDecoratorPropertyValue_styles_def entryWith_def
           split: option.splits objectLiteralElement.splits expression.splits)

lemma migrateTemplate_styles_idle:
  assumes "list_ex (isNamed ''templateUrl'') props \<or> \<not> entryWith literalOrList ''template'' props"
  shows "migrateTemplate_styles contentOfList p c props st = Done st"
proof (cases "list_ex (isNamed ''templateUrl'') props")
  case True
  then show ?thesis by (simp add: migrateTemplate_styles_def)
next
  case False
  then have "getDecoratorPropertyValue_styles props ''template'' = None"
    using assms getDecoratorPropertyValue_styles_iff by blast
  then show ?thesis using False by (simp add: migrateTemplate_styles_def)
qed

lemma migrateStyles_styles_idle:
  assumes "list_ex (isNamed ''styleUrls'') props \<or> \<not> entryWith literalOrList ''styles'' props"
  shows "migrateStyles_styles p c props st = Done st"
proof (cases "list_ex (isNamed ''styleUrls'') props")
  case True
  then show ?thesis by (simp add: migrateStyles_styles_def)
next
  case False
  then have "getDecoratorPropertyValue_styles props ''styles'' = None"
    using assms getDecoratorPropertyValue_styles_iff by blast
  then show ?thesis using False by (simp add: migrateStyles_styles_def)
qed


section \<open>C5: the guards of the two migrations\<close>


lemma listed_layout:
  "listed_text ! 11 = CHR ''{'' \<and>
   take 13 (drop 13 listed_text) = ''selector: 'x'' @ [CHR 0x27] \<and>
   listed_text ! 26 = CHR '','' \<and>
   take 23 (drop 28 listed_text) = ''template: ['<p>hi</p>']'' \<and>
   drop 51 listed_text = '' })'' @ [CHR 0x0A] @ ''export class XComponent {}''"
  by code_simp




section \<open>The variant with styles: a block that throws\<close>

lemma createScssFiles_frame:
  assumes "createScssFiles t d b styles i = Inr (t1, urls)" "t q \<noteq> None"
  shows "t1 q = t q"
  using assms
proof (induction styles arbitrary: t i t1 urls)
  case Nil
  then show ?case by simp
next
  case (Cons s rest)
  obtain t' url where a: "createScssFile t d b s i = Inr (t', url)"
    using Cons.prems(1) by (auto split: sum.splits)
  then obtain urls' where b: "createScssFiles t' d b rest (Suc i) = Inr (t1, urls')"
    using Cons.prems(1) by (auto split: sum.splits)
  have c: "t' q = t q" using createScssFile_frame[OF a Cons.prems(2)] .
  then have "t' q \<noteq> None" using Cons.prems(2) by simp
  then have "t1 q = t' q" using Cons.IH[OF b] by simp
  then show ?case using c by simp
qed

lemma migrateTemplate_styles_thrown:
  assumes "tree st p \<noteq> None" "migrateTemplate_styles contentOfList p c props st = Thrown f s1"
  shows "tree s1 p = tree st p"
proof -
  let ?h = "normalizePath (join (dirname p) (basename p ''.ts'' @ ''.html''))"
  have "s1 = st \<or> (\<exists>x. tree st ?h = None \<and> s1 = st\<lparr>tree := (tree st)(?h \<mapsto> x)\<rparr>)"
    using assms(2)
    by (auto simp: migrateTemplate_styles_def Let_def create_def exists_def
             split: if_splits option.splits sum.splits prod.splits)
  then show ?thesis using assms(1) by auto
qed

lemma migrateStyles_styles_thrown:
  assumes "tree st p \<noteq> None" "migrateStyles_styles p c props st = Thrown f s1"
  shows "tree s1 p = tree st p"
  using assms(2) createScssFiles_frame[where t="tree st" and q=p, OF _ assms(1)]
    createScssFile_frame[where t="tree st" and q=p, OF _ assms(1)]
  by (auto simp: migrateStyles_styles_def Let_def
           split: if_splits option.splits sum.splits prod.splits propertyValue.splits)

section \<open>C8: faults\<close>

lemma sample_layout:
  "sample_text ! 103 = CHR ''{'' \<and>
   take 21 (drop 107 sample_text) = ''selector: 'app-ideas'' @ [CHR 0x27] \<and>
   sample_text ! 128 = CHR '','' \<and>
   take 16 (drop 132 sample_text) = ''standalone: true'' \<and>
   sample_text ! 148 = CHR '','' \<and>
   take 23 (drop 152 sample_text) = ''imports: [CommonModule]'' \<and>
   sample_text ! 175 = CHR '','' \<and>
   take 80 (drop 179 sample_text) = ''template: `'' @ sample_template @ ''`'' \<and>
   sample_text ! 259 = CHR '','' \<and>
   take 177 (drop 263 sample_text) =
     ''styles: ['' @ [CHR 0x0A] @ ''    `'' @ sample_style @ ''`,'' @ [CHR 0x0A] @ ''  ]'' \<and>
   sample_text ! 440 = CHR '','' \<and>
   length sample_text = 476 \<and> length sample_half_migrated = 433"
  by code_simp

lemma sample_observed:
  "observe (processFile_styles emptyContent sample_parse sample_path sample_state)
      sample_path [''src'', ''app'', ''ideas.component.html''] =
     (Some CharacterOutOfBounds, Some sample_half_migrated, Some sample_template, [])"
  by code_simp

lemma sample_thrown:
  "\<exists>s1. processFile_styles emptyContent sample_parse sample_path sample_state = Thrown CharacterOutOfBounds s1 \<and>
     tree s1 sample_path = Some sample_half_migrated \<and>
     tree s1 [''src'', ''app'', ''ideas.component.html''] = Some sample_template \<and>
     logger s1 = []"
  using sample_observed
  by (cases "processFile_styles emptyContent sample_parse sample_path sample_state") simp_all

text \<open>
  C8. The variant with styles on the sample component of the repository. The markup block
  creates the markup file and commits its edit; the styles block then removes, in the
  file as the tree holds it by then (433 characters), the range the original text gave
  it, which ends at 440: the recorder throws, the handler logs three error lines, and the
  file of the unit stays as the markup block left it, not as it was.
\<close>

theorem sample_fault_after_commit:
  "tree (visitFile_styles emptyContent sample_parse sample_path sample_state) sample_path
     = Some sample_half_migrated \<and>
   tree sample_state sample_path = Some sample_text \<and>
   sample_half_migrated \<noteq> sample_text \<and>
   tree (visitFile_styles emptyContent sample_parse sample_path sample_state) [''src'', ''app'', ''ideas.component.html'']
     = Some sample_template \<and>
   logger (visitFile_styles emptyContent sample_parse sample_path sample_state) =
     [(Error, ErrorProcessingFile sample_path), (Error, FaultMessage CharacterOutOfBounds),
      (Error, FaultStack CharacterOutOfBounds)]"
proof -
  obtain s1 where t: "processFile_styles emptyContent sample_parse sample_path sample_state = Thrown CharacterOutOfBounds s1"
    and a: "tree s1 sample_path = Some sample_half_migrated"
    and b: "tree s1 [''src'', ''app'', ''ideas.component.html''] = Some sample_template"
    and c: "logger s1 = []"
    using sample_thrown by blast
  have v: "visitFile_styles emptyContent sample_parse sample_path sample_state =
      log Error (FaultStack CharacterOutOfBounds)
        (log Error (FaultMessage CharacterOutOfBounds) (log Error (ErrorProcessingFile sample_path) s1))"
    by (simp add: visitFile_styles_def t)
  have d: "sample_half_migrated \<noteq> sample_text" by code_simp
  have e: "tree sample_state sample_path = Some sample_text" by (simp add: sample_state_def)
  show ?thesis unfolding v using a b c d e by (simp add: log_def)
qed

lemma migrarTemplates_styles_Done:
  "migrarTemplates_styles contentOfList parse (Inr files) st =
     Done (log Info Completed (visitAll_styles contentOfList parse files (log Info Searching st)))"
  by (simp add: migrarTemplates_styles_def)

text \<open>
  The handlers of the variant with styles. A throw of the work on one file becomes three
  error lines and the walk goes on with the next file, so that a run over an enumeration
  always ends; the block that threw leaves the file of the unit as that block found it;
  a fault of the enumeration ends the run with fatal lines and is thrown on.
\<close>

lemma handlers_of_variant_with_styles:
  "(\<exists>s. migrarTemplates_styles contentOfList parse (Inr files) st = Done s) \<and>
   (processFile_styles contentOfList parse p st = Thrown f s1 \<longrightarrow>
      visitFile_styles contentOfList parse p st =
        log Error (FaultStack f) (log Error (FaultMessage f) (log Error (ErrorProcessingFile p) s1)) \<and>
      visitAll_styles contentOfList parse (p # rest) st =
        visitAll_styles contentOfList parse rest
          (log Error (FaultStack f) (log Error (FaultMessage f) (log Error (ErrorProcessingFile p) s1)))) \<and>
   (tree st p \<noteq> None \<and> migrateTemplate_styles contentOfList p c props st = Thrown f s1 \<longrightarrow>
      tree s1 p = tree st p) \<and>
   (tree st p \<noteq> None \<and> migrateStyles_styles p c props st = Thrown f s1 \<longrightarrow> tree s1 p = tree st p) \<and>
   migrarTemplates_styles contentOfList parse (Inl f) st =
     Thrown f (log Fatal (FaultStack f) (log Fatal (FaultMessage f)
                 (log Fatal FatalTraversal (log Info Searching st))))"
proof -
  have 1: "\<exists>s. migrarTemplates_styles contentOfList parse (Inr files) st = Done s"
    by (simp add: migrarTemplates_styles_def)
  have 2: "processFile_styles contentOfList parse p st = Thrown f s1 \<longrightarrow>
      visitFile_styles contentOfList parse p st =
        log Error (FaultStack f) (log Error (FaultMessage f) (log Error (ErrorProcessingFile p) s1)) \<and>
      visitAll_styles contentOfList parse (p # rest) st =
        visitAll_styles contentOfList parse rest
          (log Error (FaultStack f) (log Error (FaultMessage f) (log Error (ErrorProcessingFile p) s1)))"
    by (simp add: visitFile_styles_def)
  have 3: "tree st p \<noteq> None \<and> migrateTemplate_styles contentOfList p c props st = Thrown f s1 \<longrightarrow>
      tree s1 p = tree st p"
    using migrateTemplate_styles_thrown by blast
  have 4: "tree st p \<noteq> None \<and> migrateStyles_styles p c props st = Thrown f s1 \<longrightarrow> tree s1 p = tree st p"
    using migrateStyles_styles_thrown by blast
  have 5: "migrarTemplates_styles contentOfList parse (Inl f) st =
     Thrown f (log Fatal (FaultStack f) (log Fatal (FaultMessage f)
                 (log Fatal FatalTraversal (log Info Searching st))))"
    by (simp add: migrarTemplates_styles_def)
  show ?thesis using 1 2 3 4 5 by (intro conjI)
qed

section \<open>C7: values that are no literal\<close>

text \<open>
  C7, counterexample. The variant with styles on the block
  \<open>{ selector: 'x', styles: [theme] }\<close>: the entry is not skipped. The unit is rewritten
  to refer to \<open>./x.component.scss\<close>, that file is created with the empty text standing
  for the identifier, and the log stays empty. On the block
  \<open>{ selector: 'x', template: title }\<close> the same variant leaves the file as it is and
  creates none, with nothing logged either.
\<close>

theorem themed_list_gets_empty_file:
  "observe (processFile_styles emptyContent (\<lambda>p c. componentSource themed_properties) srcX_path
              \<lparr>tree = Map.empty(srcX_path \<mapsto> themed_text), logger = []\<rparr>)
      srcX_path [''src'', ''x.component.scss''] =
     (None,
      Some (''@Component({ selector: 'x','' @ [CHR 0x0A] @ ''  styleUrls: ['./x.component.scss'] })''
              @ [CHR 0x0A] @ ''export class XComponent {}''),
      Some [],
      []) \<and>
   observe (processFile_styles emptyContent (\<lambda>p c. componentSource titled_properties) srcX_path
              \<lparr>tree = Map.empty(srcX_path \<mapsto> titled_text), logger = []\<rparr>)
      srcX_path [''src'', ''x.component.html''] =
     (None, Some titled_text, None, [])"
  by code_simp

lemma visitFile_no_literal:
  assumes "isComponentFile p" "tree st p = Some c"
    and "findComponentDecorator (parse p c) = Some props"
    and "\<not> list_ex (isNamed ''templateUrl'') props"
    and "\<not> entryWith literalValue ''template'' props"
  shows "visitFile parse p st = Done (log Debug (SkipNoInlineTemplate p) st)"
proof -
  have "getDecoratorPropertyValue props ''template'' = None"
    using assms(5) getDecoratorPropertyValue_iff by blast
  then show ?thesis
    using assms(1-4) by (simp add: visitFile_def isComponentFile_def read_def)
qed

lemma getDecoratorPropertyValue_styles_list:
  assumes "find (isNamed name) props = Some (PropertyAssignment k (ArrayLiteralExpression es) r)"
  shows "getDecoratorPropertyValue_styles props name = Some (ListValue (map elementText es))"
  using assms by (simp add: getDecoratorPropertyValue_styles_def)

lemma elementText_other: "\<not> literalValue e \<Longrightarrow> elementText e = []"
  by (cases e) (simp_all add: elementText_def)

text \<open>
  C7, amended. In \<open>index.ts\<close> a unit that passes the guard on \<open>templateUrl\<close> and whose
  \<open>template\<close> entry is missing or has no literal value is left with one debug line, the
  tree as it was. In the variant with styles a \<open>template\<close> or \<open>styles\<close> entry whose value
  is neither a literal nor a list is left with the state as it was, the log included. A
  list is read element by element, and an element that is no literal is read as the
  empty text.
\<close>

theorem unusable_values:
  "(isComponentFile p \<and> tree st p = Some c \<and> findComponentDecorator (parse p c) = Some props \<and>
      \<not> list_ex (isNamed ''templateUrl'') props \<and> \<not> entryWith literalValue ''template'' props \<longrightarrow>
      visitFile parse p st = Done (log Debug (SkipNoInlineTemplate p) st)) \<and>
   (\<not> entryWith literalOrList ''template'' props \<longrightarrow> migrateTemplate_styles contentOfList p c props st = Done st) \<and>
   (\<not> entryWith literalOrList ''styles'' props \<longrightarrow> migrateStyles_styles p c props st = Done st) \<and>
   (find (isNamed name) props = Some (PropertyAssignment k (ArrayLiteralExpression es) r) \<longrightarrow>
      getDecoratorPropertyValue_styles props name = Some (ListValue (map elementText es))) \<and>
   (\<not> literalValue e \<longrightarrow> elementText e = [])"
  using visitFile_no_literal[of p st c parse props]
    migrateTemplate_styles_idle[of props contentOfList p c st] migrateStyles_styles_idle[of props p c st]
    getDecoratorPropertyValue_styles_list[of name props k es r] elementText_other[of e]
  by blast

theorem unusable_values_witness:
  "visitFile (\<lambda>p c. componentSource titled_properties) scenarioA_path
      \<lparr>tree = Map.empty(scenarioA_path \<mapsto> titled_text), logger = []\<rparr> =
     Done \<lparr>tree = Map.empty(scenarioA_path \<mapsto> titled_text),
           logger = [(Debug, SkipNoInlineTemplate scenarioA_path)]\<rparr> \<and>
   migrateTemplate_styles emptyContent srcX_path titled_text titled_properties
      \<lparr>tree = Map.empty(srcX_path \<mapsto> titled_text), logger = []\<rparr> =
     Done \<lparr>tree = Map.empty(srcX_path \<mapsto> titled_text), logger = []\<rparr> \<and>
   getDecoratorPropertyValue_styles themed_properties ''styles'' = Some (ListValue [[]])"
proof -
  let ?parse = "\<lambda>p c. componentSource titled_properties"
  let ?st = "\<lparr>tree = Map.empty(scenarioA_path \<mapsto> titled_text), logger = []\<rparr>"
  have h1: "isComponentFile scenarioA_path" by code_simp
  have h2: "tree ?st scenarioA_path = Some titled_text" by simp
  have h3: "findComponentDecorator (?parse scenarioA_path titled_text) = Some titled_properties"
    by code_simp
  have h4: "\<not> list_ex (isNamed ''templateUrl'') titled_properties" by code_simp
  have h5: "\<not> entryWith literalValue ''template'' titled_properties" by code_simp
  have h6: "\<not> entryWith literalOrList ''template'' titled_properties" by code_simp
  have h7: "find (isNamed ''styles'') themed_properties =
      Some (PropertyAssignment (Identifier ''styles'') (ArrayLiteralExpression [OtherExpression])
              \<lparr>getFullStart = 27, getStart = 28, getEnd = 43\<rparr>)" by code_simp
  have h8: "\<not> literalValue OtherExpression" by simp
  note A = unusable_values[of scenarioA_path ?st titled_text ?parse titled_properties emptyContent
      "''styles''" "Identifier ''styles''" "[OtherExpression]"
      "\<lparr>getFullStart = 27, getStart = 28, getEnd = 43\<rparr>" OtherExpression]
  have 1: "visitFile ?parse scenarioA_path ?st = Done (log Debug (SkipNoInlineTemplate scenarioA_path) ?st)"
    using A h1 h2 h3 h4 h5 by blast
  note B = unusable_values[of srcX_path "\<lparr>tree = Map.empty(srcX_path \<mapsto> titled_text), logger = []\<rparr>"
      titled_text ?parse titled_properties emptyContent
      "''styles''" "Identifier ''styles''" "[OtherExpression]"
      "\<lparr>getFullStart = 27, getStart = 28, getEnd = 43\<rparr>" OtherExpression]
  have 2: "migrateTemplate_styles emptyContent srcX_path titled_text titled_properties
      \<lparr>tree = Map.empty(srcX_path \<mapsto> titled_text), logger = []\<rparr> =
     Done \<lparr>tree = Map.empty(srcX_path \<mapsto> titled_text), logger = []\<rparr>"
    using B h6 by blast
  note C = unusable_values[of scenarioA_path ?st titled_text ?parse themed_properties emptyContent
      "''styles''" "Identifier ''styles''" "[OtherExpression]"
      "\<lparr>getFullStart = 27, getStart = 28, getEnd = 43\<rparr>" OtherExpression]
  have "getDecoratorPropertyValue_styles themed_properties ''styles'' =
      Some (ListValue (map elementText [OtherExpression]))" using C h7 by blast
  moreover have "elementText OtherExpression = []" using C h8 by blast
  ultimately have 3: "getDecoratorPropertyValue_styles themed_properties ''styles'' = Some (ListValue [[]])"
    by simp
  show ?thesis using 1 2 3 by (simp add: log_def)
qed

end
